theory Spec2Isabelle
  imports Main "HOL-Library.Sublist" "HOL-Library.AList"
begin

section \<open>Paths, file contents and the file tree\<close>

text \<open>
  The two scripts of the repository, \<^verbatim>\<open>process_assets.py\<close> (class \<^verbatim>\<open>AssetProcessor\<close>)
  and \<^verbatim>\<open>compile_shaders.py\<close>, act on the file system and on standard output only.
  A \<^verbatim>\<open>pathlib.Path\<close> is the list of its components, relative to the working
  directory (the empty list is the working directory itself, which always exists).
  Components are plain names: no \<^verbatim>\<open>..\<close>. Two different names are two different
  files: no symbolic or hard links, and a volume that tells upper case from lower case;
  the section on aliased names drops this assumption for the asset script. File
  metadata (times, permission bits) is not part of the model, nor are failures of the
  operating system that do not depend on the tree (permissions, a full disk).
\<close>

type_synonym path = "string list"

text \<open>A Python value built from dicts, lists and strings, as \<^verbatim>\<open>json.dump\<close> receives it.\<close>

datatype json = JString string | JArray "json list" | JObject "(string \<times> json) list"

text \<open>
  A regular file holds either bytes, or the text that \<^verbatim>\<open>json.dump(v, f, indent=2)\<close>
  writes for a value \<open>v\<close> (the serialiser is library code; its output is kept as the
  value it encodes).
\<close>

datatype content = Bytes string | JsonText json

datatype node = File content | Dir

text \<open>
  The tree is an association list from paths to nodes; its order is the order in which
  the operating system lists directory entries. A new entry goes to the end.
\<close>

type_synonym fs = "(path \<times> node) list"

datatype error =
    FileNotFoundError | FileExistsError | IsADirectoryError | NotADirectoryError
  | SameFileError | ValueError

record world =
  files :: fs
  stdout :: "string list"

text \<open>
  What a function of the scripts gives back: its value, or the exception it raised
  together with the world as it was at that moment. An exception is caught nowhere in
  the two scripts.
\<close>

type_synonym 'a result = "(error \<times> world) + 'a"

definition print :: "string \<Rightarrow> world \<Rightarrow> world" where
  "print line w = w\<lparr>stdout := stdout w @ [line]\<rparr>"

subsection \<open>pathlib and os\<close>

definition stat :: "fs \<Rightarrow> path \<Rightarrow> node option" where
  "stat t p = (if p = [] then Some Dir else map_of t p)"

definition path_exists :: "fs \<Rightarrow> path \<Rightarrow> bool" where
  "path_exists t p = (stat t p \<noteq> None)"

definition is_dir :: "fs \<Rightarrow> path \<Rightarrow> bool" where
  "is_dir t p = (stat t p = Some Dir)"

definition is_file :: "fs \<Rightarrow> path \<Rightarrow> bool" where
  "is_file t p = (case stat t p of Some (File c) \<Rightarrow> True | _ \<Rightarrow> False)"

text \<open>\<^verbatim>\<open>Path.name\<close>: the last component.\<close>

definition name :: "path \<Rightarrow> string" where
  "name p = (if p = [] then [] else last p)"

text \<open>\<^verbatim>\<open>str(path)\<close> on POSIX.\<close>

fun str_path :: "path \<Rightarrow> string" where
  "str_path [] = ''.''"
| "str_path (x # xs) = foldl (\<lambda>acc c. acc @ ''/'' @ c) x xs"

text \<open>\<^verbatim>\<open>s.rfind(c)\<close>: the index of the last occurrence, \<open>None\<close> for Python's -1.\<close>

fun rfind :: "char \<Rightarrow> string \<Rightarrow> nat option" where
  "rfind c [] = None"
| "rfind c (x # xs) =
     (case rfind c xs of
        Some i \<Rightarrow> Some (Suc i)
      | None \<Rightarrow> if x = c then Some 0 else None)"

text \<open>
  \<^verbatim>\<open>PurePath.suffix\<close>: with \<open>i = name.rfind('.')\<close>, the suffix is \<open>name[i:]\<close> when
  \<open>0 < i < len(name) - 1\<close> and the empty string otherwise.
\<close>

definition name_suffix :: "string \<Rightarrow> string" where
  "name_suffix nm =
     (case rfind (CHR ''.'') nm of
        None \<Rightarrow> []
      | Some i \<Rightarrow> if 0 < i \<and> Suc i < length nm then drop i nm else [])"

definition path_suffix :: "path \<Rightarrow> string" where
  "path_suffix p = name_suffix (name p)"

text \<open>
  \<^verbatim>\<open>str.lower()\<close>, on the ASCII letters; a string is the list of its bytes. Outside
  ASCII, Python's lowering never yields one of the extensions below: the only characters
  whose lowering has an ASCII letter in it are the Kelvin sign (to \<open>k\<close>, which no
  extension has) and the dotted capital I (to \<open>i\<close> and a combining dot, which stays
  outside ASCII). So membership in the extension lists agrees.
\<close>

definition lower_char :: "char \<Rightarrow> char" where
  "lower_char c =
     (let n = (of_char c :: nat) in if 65 \<le> n \<and> n \<le> 90 then char_of (n + 32) else c)"

definition lower :: "string \<Rightarrow> string" where
  "lower s = map lower_char s"

text \<open>
  \<^verbatim>\<open>d.glob("*")\<close>: the entries of \<open>d\<close> itself, hidden ones and directories included,
  nothing when \<open>d\<close> is not a directory. The single-level listing is read at once.
\<close>

definition iterdir :: "fs \<Rightarrow> path \<Rightarrow> path list" where
  "iterdir t d = remdups (filter (\<lambda>p. p \<noteq> [] \<and> butlast p = d) (map fst t))"

definition glob_star :: "fs \<Rightarrow> path \<Rightarrow> path list" where
  "glob_star t d = (if is_dir t d then iterdir t d else [])"

text \<open>
  \<^verbatim>\<open>d.glob("**/*" + ext)\<close>: every entry at any depth below \<open>d\<close>, reached through
  directories only, whose name ends with \<open>ext\<close> (case-sensitive, as on POSIX). The
  order in which \<^verbatim>\<open>pathlib\<close> yields the matches of different directories depends on
  the Python version; here they come in the order of the tree. The script uses the
  matches one by one, each independently of the others, and their number.
\<close>

definition ends_with :: "string \<Rightarrow> string \<Rightarrow> bool" where
  "ends_with nm ext = (length ext \<le> length nm \<and> drop (length nm - length ext) nm = ext)"

definition below :: "fs \<Rightarrow> path \<Rightarrow> path \<Rightarrow> bool" where
  "below t d p =
     (length d < length p \<and> take (length d) p = d \<and>
      list_all (\<lambda>k. is_dir t (take k p)) [length d ..< length p])"

definition rglob :: "fs \<Rightarrow> path \<Rightarrow> string \<Rightarrow> path list" where
  "rglob t d ext =
     (if is_dir t d
      then remdups (filter (\<lambda>p. below t d p \<and> ends_with (name p) ext) (map fst t))
      else [])"

text \<open>
  The error of the operating system for a path whose parent is not there: it walks the
  path from the working directory, and the first proper prefix that is not a directory
  decides, \<^verbatim>\<open>NotADirectoryError\<close> when it is a regular file and
  \<^verbatim>\<open>FileNotFoundError\<close> when it is missing.
\<close>

definition walk_error :: "fs \<Rightarrow> path \<Rightarrow> error" where
  "walk_error t p =
     (case filter (\<lambda>q. \<not> is_dir t q) (butlast (prefixes p)) of
        [] \<Rightarrow> FileNotFoundError
      | q # qs \<Rightarrow> if is_file t q then NotADirectoryError else FileNotFoundError)"

text \<open>
  \<^verbatim>\<open>p.mkdir(exist_ok=True)\<close>: nothing to do when \<open>p\<close> is a directory;
  \<^verbatim>\<open>FileExistsError\<close> when it is a file; otherwise the parent must be a directory.
\<close>

definition mkdir_exist_ok :: "fs \<Rightarrow> path \<Rightarrow> error + fs" where
  "mkdir_exist_ok t p =
     (case stat t p of
        Some Dir \<Rightarrow> Inr t
      | Some (File c) \<Rightarrow> Inl FileExistsError
      | None \<Rightarrow>
          (case stat t (butlast p) of
             Some Dir \<Rightarrow> Inr (t @ [(p, Dir)])
           | Some (File c) \<Rightarrow> Inl NotADirectoryError
           | None \<Rightarrow> Inl (walk_error t p)))"

text \<open>\<^verbatim>\<open>p.mkdir(parents=True, exist_ok=True)\<close>: missing ancestors are created first.\<close>

function mkdir_parents :: "fs \<Rightarrow> path \<Rightarrow> error + fs" where
  "mkdir_parents t p =
     (case stat t p of
        Some Dir \<Rightarrow> Inr t
      | Some (File c) \<Rightarrow> Inl FileExistsError
      | None \<Rightarrow>
          (case stat t (butlast p) of
             Some Dir \<Rightarrow> Inr (t @ [(p, Dir)])
           | Some (File c) \<Rightarrow> Inl NotADirectoryError
           | None \<Rightarrow>
               (case mkdir_parents t (butlast p) of
                  Inl e \<Rightarrow> Inl e
                | Inr t' \<Rightarrow> Inr (t' @ [(p, Dir)]))))"
  by pat_completeness auto
termination
  by (relation "measure (\<lambda>(t, p). length p)") (auto simp: stat_def split: if_splits)

declare mkdir_parents.simps [simp del]

text \<open>
  \<^verbatim>\<open>open(p, 'w')\<close>: creates the file or truncates it to nothing; the parent must be a
  directory and \<open>p\<close> must not be one.
\<close>

definition open_w :: "fs \<Rightarrow> path \<Rightarrow> error + fs" where
  "open_w t p =
     (case stat t p of
        Some Dir \<Rightarrow> Inl IsADirectoryError
      | Some (File c) \<Rightarrow> Inr (AList.update p (File (Bytes [])) t)
      | None \<Rightarrow>
          (case stat t (butlast p) of
             Some Dir \<Rightarrow> Inr (AList.update p (File (Bytes [])) t)
           | Some (File c) \<Rightarrow> Inl NotADirectoryError
           | None \<Rightarrow> Inl (walk_error t p)))"

text \<open>Writing the whole content to an open file.\<close>

definition write_all :: "fs \<Rightarrow> path \<Rightarrow> content \<Rightarrow> fs" where
  "write_all t p c = AList.update p (File c) t"

text \<open>
  \<^verbatim>\<open>shutil.copy2(src, dst)\<close>: when \<open>dst\<close> is a directory the copy goes inside it, under
  the name of \<open>src\<close>; copying a file onto itself is \<^verbatim>\<open>SameFileError\<close>; the source
  is opened first (a directory cannot be), then the destination is opened for writing
  and receives the bytes. The last step of \<^verbatim>\<open>copy2\<close>, \<^verbatim>\<open>copystat\<close>, gives the
  destination the times and the permission bits of the source; they are metadata, which
  the tree does not hold. So the copy of a read-only source is read-only, and copying
  onto it once more fails for an unprivileged user: whether a copy onto the copy of an
  earlier run succeeds is not decided by this model, and no statement below says that
  it does.
\<close>

definition copy_target :: "fs \<Rightarrow> path \<Rightarrow> path \<Rightarrow> path" where
  "copy_target t src dst = (if is_dir t dst then dst @ [name src] else dst)"

definition copy2 :: "fs \<Rightarrow> path \<Rightarrow> path \<Rightarrow> error + fs" where
  "copy2 t src dst =
     (let dst' = copy_target t src dst in
      if src = dst' \<and> path_exists t src then Inl SameFileError
      else
        (case stat t src of
           None \<Rightarrow> Inl FileNotFoundError
         | Some Dir \<Rightarrow> Inl IsADirectoryError
         | Some (File c) \<Rightarrow>
             (case open_w t dst' of
                Inl e \<Rightarrow> Inl e
              | Inr t' \<Rightarrow> Inr (write_all t' dst' c))))"

section \<open>process\_assets.py\<close>

text \<open>One dict appended to \<^verbatim>\<open>self.manifest["assets"]\<close>: the values of its three keys
  \<^verbatim>\<open>"type"\<close>, \<^verbatim>\<open>"source"\<close> and \<^verbatim>\<open>"output"\<close>.\<close>

record asset_entry =
  entry_type :: string
  entry_source :: string
  entry_output :: string

text \<open>
  The object: \<^verbatim>\<open>self.assets_dir\<close>, \<^verbatim>\<open>self.output_dir\<close> and the list
  \<^verbatim>\<open>self.manifest["assets"]\<close> (\<^verbatim>\<open>"assets"\<close> is the only key of \<^verbatim>\<open>self.manifest\<close>).
\<close>

record AssetProcessor =
  assets_dir :: path
  output_dir :: path
  manifest :: "asset_entry list"

definition AssetProcessor_init :: "path \<Rightarrow> path \<Rightarrow> AssetProcessor" where
  "AssetProcessor_init a out = \<lparr>assets_dir = a, output_dir = out, manifest = []\<rparr>"

text \<open>
  The body of the four loops. \<^verbatim>\<open>process_textures\<close>, \<^verbatim>\<open>process_models\<close>,
  \<^verbatim>\<open>process_audio\<close> and \<^verbatim>\<open>process_shaders\<close> are the same text up to three constants:
  the subdirectory, the word used in the message and in the \<^verbatim>\<open>"type"\<close> field, and the
  list of extensions. For each listed path whose lowered suffix is in the list: print,
  copy, append to the manifest. An exception of \<^verbatim>\<open>copy2\<close> is not caught.
\<close>

fun process_files ::
  "string \<Rightarrow> string list \<Rightarrow> path \<Rightarrow> path list \<Rightarrow> AssetProcessor \<Rightarrow> world \<Rightarrow>
   (AssetProcessor \<times> world) result" where
  "process_files kind exts outd [] self w = Inr (self, w)"
| "process_files kind exts outd (f # rest) self w =
     (if lower (path_suffix f) \<in> set exts then
        (let w1 = print (''Processing '' @ kind @ '': '' @ name f) w in
         case copy2 (files w1) f (outd @ [name f]) of
           Inl e \<Rightarrow> Inl (e, w1)
         | Inr t \<Rightarrow>
             process_files kind exts outd rest
               (self\<lparr>manifest := manifest self @
                  [\<lparr>entry_type = kind, entry_source = str_path f,
                    entry_output = str_path (outd @ [name f])\<rparr>]\<rparr>)
               (w1\<lparr>files := t\<rparr>))
      else process_files kind exts outd rest self w)"

definition process_category ::
  "string \<Rightarrow> string \<Rightarrow> string list \<Rightarrow> AssetProcessor \<Rightarrow> world \<Rightarrow>
   (AssetProcessor \<times> world) result" where
  "process_category sub kind exts self w =
     (let src_dir = assets_dir self @ [sub] in
      if \<not> path_exists (files w) src_dir then Inr (self, w)
      else
        (let out_dir = output_dir self @ [sub] in
         case mkdir_exist_ok (files w) out_dir of
           Inl e \<Rightarrow> Inl (e, w)
         | Inr t \<Rightarrow>
             process_files kind exts out_dir (glob_star t src_dir) self (w\<lparr>files := t\<rparr>)))"

definition texture_exts :: "string list" where
  "texture_exts = [''.png'', ''.jpg'', ''.jpeg'', ''.tga'', ''.bmp'']"

definition model_exts :: "string list" where
  "model_exts = [''.obj'', ''.fbx'', ''.gltf'', ''.dae'']"

definition audio_exts :: "string list" where
  "audio_exts = [''.wav'', ''.ogg'', ''.mp3'']"

definition shader_exts :: "string list" where
  "shader_exts = [''.glsl'', ''.vert'', ''.frag'', ''.hlsl'']"

definition process_textures :: "AssetProcessor \<Rightarrow> world \<Rightarrow> (AssetProcessor \<times> world) result" where
  "process_textures = process_category ''textures'' ''texture'' texture_exts"

definition process_models :: "AssetProcessor \<Rightarrow> world \<Rightarrow> (AssetProcessor \<times> world) result" where
  "process_models = process_category ''models'' ''model'' model_exts"

definition process_audio :: "AssetProcessor \<Rightarrow> world \<Rightarrow> (AssetProcessor \<times> world) result" where
  "process_audio = process_category ''sounds'' ''audio'' audio_exts"

definition process_shaders :: "AssetProcessor \<Rightarrow> world \<Rightarrow> (AssetProcessor \<times> world) result" where
  "process_shaders = process_category ''shaders'' ''shader'' shader_exts"

text \<open>The value handed to \<^verbatim>\<open>json.dump\<close>: \<^verbatim>\<open>{"assets": [{"type", "source", "output"}, ...]}\<close>.\<close>

definition entry_json :: "asset_entry \<Rightarrow> json" where
  "entry_json e =
     JObject [(''type'', JString (entry_type e)), (''source'', JString (entry_source e)),
              (''output'', JString (entry_output e))]"

definition manifest_json :: "asset_entry list \<Rightarrow> json" where
  "manifest_json m = JObject [(''assets'', JArray (map entry_json m))]"

definition manifest_file :: "AssetProcessor \<Rightarrow> path" where
  "manifest_file self = output_dir self @ [''asset_manifest.json'']"

text \<open>
  \<^verbatim>\<open>generate_manifest\<close>: the file is opened in place (\<^verbatim>\<open>open(manifest_file, 'w')\<close>),
  the JSON text is written into it, then the message is printed.
\<close>

definition generate_manifest :: "AssetProcessor \<Rightarrow> world \<Rightarrow> world result" where
  "generate_manifest self w =
     (case open_w (files w) (manifest_file self) of
        Inl e \<Rightarrow> Inl (e, w)
      | Inr t \<Rightarrow>
          Inr (print (''Generated manifest: '' @ str_path (manifest_file self))
                 (w\<lparr>files := write_all t (manifest_file self)
                                (JsonText (manifest_json (manifest self)))\<rparr>)))"

text \<open>
  The states of the file tree that a save goes through: before it, after \<^verbatim>\<open>open\<close>,
  after \<^verbatim>\<open>json.dump\<close>. No state is listed after an exception of \<^verbatim>\<open>open\<close>.
\<close>

definition generate_manifest_trace :: "AssetProcessor \<Rightarrow> world \<Rightarrow> fs list" where
  "generate_manifest_trace self w =
     (case open_w (files w) (manifest_file self) of
        Inl e \<Rightarrow> [files w]
      | Inr t \<Rightarrow>
          [files w, t,
           write_all t (manifest_file self) (JsonText (manifest_json (manifest self)))])"

definition process_all_assets ::
  "AssetProcessor \<Rightarrow> world \<Rightarrow> (bool \<times> AssetProcessor \<times> world) result" where
  "process_all_assets self w =
     (let w0 = print ''Starting asset processing...'' w in
      if \<not> path_exists (files w0) (assets_dir self) then
        Inr (False, self,
             print (''Assets directory '' @ [CHR 0x27] @ str_path (assets_dir self) @
                    [CHR 0x27] @ '' not found!'') w0)
      else
        (case mkdir_exist_ok (files w0) (output_dir self) of
           Inl e \<Rightarrow> Inl (e, w0)
         | Inr t \<Rightarrow>
        (case process_textures self (w0\<lparr>files := t\<rparr>) of
           Inl e \<Rightarrow> Inl e
         | Inr (s1, w1) \<Rightarrow>
        (case process_models s1 w1 of
           Inl e \<Rightarrow> Inl e
         | Inr (s2, w2) \<Rightarrow>
        (case process_audio s2 w2 of
           Inl e \<Rightarrow> Inl e
         | Inr (s3, w3) \<Rightarrow>
        (case process_shaders s3 w3 of
           Inl e \<Rightarrow> Inl e
         | Inr (s4, w4) \<Rightarrow>
        (case generate_manifest s4 w4 of
           Inl e \<Rightarrow> Inl e
         | Inr w5 \<Rightarrow> Inr (True, s4, print ''Asset processing complete!'' w5))))))))"

text \<open>
  \<^verbatim>\<open>main\<close>: a processor with the default directories; the result is the argument of
  \<^verbatim>\<open>sys.exit\<close>, or the uncaught exception.
\<close>

definition main :: "world \<Rightarrow> (int \<times> world) result" where
  "main w =
     (case process_all_assets (AssetProcessor_init [''assets''] [''processed_assets'']) w of
        Inl e \<Rightarrow> Inl e
      | Inr (success, self, w') \<Rightarrow> Inr (if success then 0 else 1, w'))"

text \<open>
  The exit status of the interpreter: the argument of \<^verbatim>\<open>sys.exit\<close>, and 1 after an
  uncaught exception.
\<close>

definition exit_status :: "(int \<times> world) result \<Rightarrow> int" where
  "exit_status r = (case r of Inl e \<Rightarrow> 1 | Inr (rc, w) \<Rightarrow> rc)"

section \<open>compile\_shaders.py\<close>

text \<open>\<^verbatim>\<open>compile_shader\<close>: prints one line and returns \<^verbatim>\<open>True\<close>.\<close>

definition compile_shader :: "path \<Rightarrow> path \<Rightarrow> string \<Rightarrow> world \<Rightarrow> bool \<times> world" where
  "compile_shader input_file output_file shader_type w =
     (True, print (''Compiling '' @ str_path input_file @ '' -> '' @ str_path output_file) w)"

text \<open>\<^verbatim>\<open>f.relative_to(d)\<close> and \<^verbatim>\<open>p.with_suffix(s)\<close>; both raise \<^verbatim>\<open>ValueError\<close>.\<close>

definition relative_to :: "path \<Rightarrow> path \<Rightarrow> error + path" where
  "relative_to f d = (if prefix d f then Inr (drop (length d) f) else Inl ValueError)"

definition with_suffix :: "path \<Rightarrow> string \<Rightarrow> error + path" where
  "with_suffix p s =
     (if name p = [] then Inl ValueError
      else Inr (butlast p @
                [take (length (name p) - length (path_suffix p)) (name p) @ s]))"

text \<open>
  The loop of \<^verbatim>\<open>main\<close>; \<open>Some 1\<close> is the \<^verbatim>\<open>return 1\<close> inside it, \<open>None\<close> is falling
  through to the code after the loop.
\<close>

fun compile_loop :: "path \<Rightarrow> path \<Rightarrow> path list \<Rightarrow> world \<Rightarrow> (int option \<times> world) result" where
  "compile_loop input_dir out_dir [] w = Inr (None, w)"
| "compile_loop input_dir out_dir (shader_file # rest) w =
     (case relative_to shader_file input_dir of
        Inl e \<Rightarrow> Inl (e, w)
      | Inr relative_path \<Rightarrow>
          (case with_suffix relative_path ''.spv'' of
             Inl e \<Rightarrow> Inl (e, w)
           | Inr rel_spv \<Rightarrow>
               (case compile_shader shader_file (out_dir @ rel_spv) ''vertex'' w of
                  (ok, w') \<Rightarrow>
                    if \<not> ok then Inr (Some 1, w')
                    else compile_loop input_dir out_dir rest w')))"

text \<open>Decimal digits of a number, for \<^verbatim>\<open>len(shader_files)\<close> in the last message.\<close>

fun show_nat :: "nat \<Rightarrow> string" where
  "show_nat n =
     (if n < 10 then [char_of (48 + n)]
      else show_nat (n div 10) @ [char_of (48 + n mod 10)])"

declare show_nat.simps [simp del]

text \<open>
  \<^verbatim>\<open>parser.parse_args()\<close>, the first step of \<^verbatim>\<open>main\<close>: the options
  \<^verbatim>\<open>--input\<close> and \<^verbatim>\<open>--output\<close> are both declared with \<^verbatim>\<open>required=True\<close>.
  The call has three outcomes. It returns the namespace with the two values. Or it
  rejects the command line (a required option is missing, an argument is unknown or has
  no value), prints the usage on standard error and ends the process with status 2. Or,
  for \<^verbatim>\<open>-h\<close>, it prints its help text on standard output and ends the process with
  status 0. Which command line has which outcome is decided inside the library, so the
  outcome is what the model of \<^verbatim>\<open>main\<close> starts from.
\<close>

datatype parse_args = Namespace path path | Rejected | Help "string list"

text \<open>
  \<^verbatim>\<open>main\<close> of the shader script. The result is the status with which the process
  ends, that is the value that \<^verbatim>\<open>main\<close> returns to \<^verbatim>\<open>sys.exit\<close> or the status
  chosen by the argument parser, or else the uncaught exception.
\<close>

definition shader_main :: "parse_args \<Rightarrow> world \<Rightarrow> (int \<times> world) result" where
  "shader_main args w =
     (case args of
        Rejected \<Rightarrow> Inr (2, w)
      | Help help_text \<Rightarrow> Inr (0, w\<lparr>stdout := stdout w @ help_text\<rparr>)
      | Namespace input_dir out_dir \<Rightarrow>
     (if \<not> path_exists (files w) input_dir then
        Inr (1, print (''Error: Input directory '' @ str_path input_dir @
                       '' does not exist'') w)
      else
        (case mkdir_parents (files w) out_dir of
           Inl e \<Rightarrow> Inl (e, w)
         | Inr t \<Rightarrow>
             (let shader_files = rglob t input_dir ''.hlsl'' @ rglob t input_dir ''.glsl'' in
              case compile_loop input_dir out_dir shader_files (w\<lparr>files := t\<rparr>) of
                Inl e \<Rightarrow> Inl e
              | Inr (Some rc, w') \<Rightarrow> Inr (rc, w')
              | Inr (None, w') \<Rightarrow>
                  Inr (0, print (''Successfully compiled '' @ show_nat (length shader_files) @
                                 '' shaders'') w')))))"

section \<open>The asset script where names are aliased\<close>

text \<open>
  The file tree above gives every name a file of its own. On a volume that ignores case,
  or where names are linked to one another, several names denote one file. Let \<open>r\<close> map
  a name to the key under which the tree holds the file that the name denotes; it is the
  identity where nothing is aliased. The operating system resolves a name each time it
  looks one up, so with such a tree the functions of the asset script are the following.
  Python itself still builds, prints and records the names as they are written, and
  \<^verbatim>\<open>glob\<close> yields the directory as it was written followed by the listed name. With
  the identity for \<open>r\<close> the functions are those of the sections above.
\<close>

definition copy_target_aliased :: "(path \<Rightarrow> path) \<Rightarrow> fs \<Rightarrow> path \<Rightarrow> path \<Rightarrow> path" where
  "copy_target_aliased r t src dst = r (if is_dir t (r dst) then dst @ [name src] else dst)"

definition copy2_aliased :: "(path \<Rightarrow> path) \<Rightarrow> fs \<Rightarrow> path \<Rightarrow> path \<Rightarrow> error + fs" where
  "copy2_aliased r t src dst =
     (let dst' = copy_target_aliased r t src dst in
      if r src = dst' \<and> path_exists t (r src) then Inl SameFileError
      else
        (case stat t (r src) of
           None \<Rightarrow> Inl FileNotFoundError
         | Some Dir \<Rightarrow> Inl IsADirectoryError
         | Some (File c) \<Rightarrow>
             (case open_w t dst' of
                Inl e \<Rightarrow> Inl e
              | Inr t' \<Rightarrow> Inr (write_all t' dst' c))))"

fun process_files_aliased ::
  "(path \<Rightarrow> path) \<Rightarrow> string \<Rightarrow> string list \<Rightarrow> path \<Rightarrow> path list \<Rightarrow> AssetProcessor \<Rightarrow> world \<Rightarrow>
   (AssetProcessor \<times> world) result" where
  "process_files_aliased r kind exts outd [] self w = Inr (self, w)"
| "process_files_aliased r kind exts outd (f # rest) self w =
     (if lower (path_suffix f) \<in> set exts then
        (let w1 = print (''Processing '' @ kind @ '': '' @ name f) w in
         case copy2_aliased r (files w1) f (outd @ [name f]) of
           Inl e \<Rightarrow> Inl (e, w1)
         | Inr t \<Rightarrow>
             process_files_aliased r kind exts outd rest
               (self\<lparr>manifest := manifest self @
                  [\<lparr>entry_type = kind, entry_source = str_path f,
                    entry_output = str_path (outd @ [name f])\<rparr>]\<rparr>)
               (w1\<lparr>files := t\<rparr>))
      else process_files_aliased r kind exts outd rest self w)"

definition process_category_aliased ::
  "(path \<Rightarrow> path) \<Rightarrow> string \<Rightarrow> string \<Rightarrow> string list \<Rightarrow> AssetProcessor \<Rightarrow> world \<Rightarrow>
   (AssetProcessor \<times> world) result" where
  "process_category_aliased r sub kind exts self w =
     (let src_dir = assets_dir self @ [sub] in
      if \<not> path_exists (files w) (r src_dir) then Inr (self, w)
      else
        (let out_dir = output_dir self @ [sub] in
         case mkdir_exist_ok (files w) (r out_dir) of
           Inl e \<Rightarrow> Inl (e, w)
         | Inr t \<Rightarrow>
             process_files_aliased r kind exts out_dir
               (map (\<lambda>p. src_dir @ [name p]) (glob_star t (r src_dir))) self
               (w\<lparr>files := t\<rparr>)))"

definition generate_manifest_aliased ::
  "(path \<Rightarrow> path) \<Rightarrow> AssetProcessor \<Rightarrow> world \<Rightarrow> world result" where
  "generate_manifest_aliased r self w =
     (case open_w (files w) (r (manifest_file self)) of
        Inl e \<Rightarrow> Inl (e, w)
      | Inr t \<Rightarrow>
          Inr (print (''Generated manifest: '' @ str_path (manifest_file self))
                 (w\<lparr>files := write_all t (r (manifest_file self))
                                (JsonText (manifest_json (manifest self)))\<rparr>)))"

definition process_all_assets_aliased ::
  "(path \<Rightarrow> path) \<Rightarrow> AssetProcessor \<Rightarrow> world \<Rightarrow> (bool \<times> AssetProcessor \<times> world) result" where
  "process_all_assets_aliased r self w =
     (let w0 = print ''Starting asset processing...'' w in
      if \<not> path_exists (files w0) (r (assets_dir self)) then
        Inr (False, self,
             print (''Assets directory '' @ [CHR 0x27] @ str_path (assets_dir self) @
                    [CHR 0x27] @ '' not found!'') w0)
      else
        (case mkdir_exist_ok (files w0) (r (output_dir self)) of
           Inl e \<Rightarrow> Inl (e, w0)
         | Inr t \<Rightarrow>
        (case process_category_aliased r ''textures'' ''texture'' texture_exts self
                (w0\<lparr>files := t\<rparr>) of
           Inl e \<Rightarrow> Inl e
         | Inr (s1, w1) \<Rightarrow>
        (case process_category_aliased r ''models'' ''model'' model_exts s1 w1 of
           Inl e \<Rightarrow> Inl e
         | Inr (s2, w2) \<Rightarrow>
        (case process_category_aliased r ''sounds'' ''audio'' audio_exts s2 w2 of
           Inl e \<Rightarrow> Inl e
         | Inr (s3, w3) \<Rightarrow>
        (case process_category_aliased r ''shaders'' ''shader'' shader_exts s3 w3 of
           Inl e \<Rightarrow> Inl e
         | Inr (s4, w4) \<Rightarrow>
        (case generate_manifest_aliased r s4 w4 of
           Inl e \<Rightarrow> Inl e
         | Inr w5 \<Rightarrow> Inr (True, s4, print ''Asset processing complete!'' w5))))))))"

definition main_aliased :: "(path \<Rightarrow> path) \<Rightarrow> world \<Rightarrow> (int \<times> world) result" where
  "main_aliased r w =
     (case process_all_assets_aliased r
             (AssetProcessor_init [''assets''] [''processed_assets'']) w of
        Inl e \<Rightarrow> Inl e
      | Inr (success, self, w') \<Rightarrow> Inr (if success then 0 else 1, w'))"

section \<open>Predicates and example projects of the statements\<close>

subsection \<open>The shader script\<close>

text \<open>
  No prefix of the path, the path itself included, is a regular file: the condition under
  which \<^verbatim>\<open>mkdir(parents=True, exist_ok=True)\<close> succeeds.
\<close>

definition creatable :: "fs \<Rightarrow> path \<Rightarrow> bool" where
  "creatable t p = list_all (\<lambda>k. \<not> is_file t (take k p)) [0 ..< Suc (length p)]"

text \<open>
  A shader directory with one file for each pattern, one of them a level down and none
  of them valid shader code; and the same directory next to a regular file where the
  output directory should go.
\<close>

definition shader_project :: world where
  "shader_project =
     \<lparr>files = [([''shaders''], Dir),
               ([''shaders'', ''basic.hlsl''], File (Bytes ''float4 main() : SV_Target'')),
               ([''shaders'', ''post''], Dir),
               ([''shaders'', ''post'', ''blur.glsl''], File (Bytes ''not a shader at all'')),
               ([''shaders'', ''notes.txt''], File (Bytes ''todo''))],
      stdout = []\<rparr>"

definition blocked_output :: world where
  "blocked_output =
     \<lparr>files = [([''shaders''], Dir),
               ([''shaders'', ''basic.hlsl''], File (Bytes ''float4 main() : SV_Target'')),
               ([''build''], File (Bytes []))],
      stdout = []\<rparr>"

subsection \<open>The asset script\<close>

text \<open>
  Two trees agree outside a region \<open>Q\<close> of paths: the entries whose path is not in \<open>Q\<close>
  are the same, in the same order.
\<close>

definition preserved :: "(path \<Rightarrow> bool) \<Rightarrow> fs \<Rightarrow> fs \<Rightarrow> bool" where
  "preserved Q t t' = (filter (\<lambda>e. \<not> Q (fst e)) t' = filter (\<lambda>e. \<not> Q (fst e)) t)"

text \<open>
  The guard of the four loops, the dict they append, the line they print, and the files
  a loop handles: the listed entries of the category directory that pass the guard.
\<close>

definition recognized :: "string list \<Rightarrow> path \<Rightarrow> bool" where
  "recognized exts f = (lower (path_suffix f) \<in> set exts)"

definition asset_record :: "string \<Rightarrow> path \<Rightarrow> path \<Rightarrow> asset_entry" where
  "asset_record kind outd f =
     \<lparr>entry_type = kind, entry_source = str_path f, entry_output = str_path (outd @ [name f])\<rparr>"

definition processing_line :: "string \<Rightarrow> path \<Rightarrow> string" where
  "processing_line kind f = ''Processing '' @ kind @ '': '' @ name f"

definition discover :: "string \<Rightarrow> string list \<Rightarrow> path \<Rightarrow> fs \<Rightarrow> path list" where
  "discover sub exts a t = filter (recognized exts) (glob_star t (a @ [sub]))"

text \<open>
  The constants of the four loops, in the order in which \<^verbatim>\<open>process_all_assets\<close> calls
  them, and the four calls in a row as one recursion over that list.
\<close>

definition categories :: "(string \<times> string \<times> string list) list" where
  "categories =
     [(''textures'', ''texture'', texture_exts), (''models'', ''model'', model_exts),
      (''sounds'', ''audio'', audio_exts), (''shaders'', ''shader'', shader_exts)]"

fun process_categories ::
  "(string \<times> string \<times> string list) list \<Rightarrow> AssetProcessor \<Rightarrow> world \<Rightarrow>
   (AssetProcessor \<times> world) result" where
  "process_categories [] self w = Inr (self, w)"
| "process_categories ((sub, kind, exts) # cs) self w =
     (case process_category sub kind exts self w of
        Inl e \<Rightarrow> Inl e
      | Inr (s1, w1) \<Rightarrow> process_categories cs s1 w1)"

text \<open>Neither directory is the other or inside it.\<close>

definition separate :: "path \<Rightarrow> path \<Rightarrow> bool" where
  "separate a out = (\<not> prefix a out \<and> \<not> prefix out a)"

text \<open>
  The entries and the \<^verbatim>\<open>Processing\<close> lines of the files that the loops of the listed
  categories select in a tree, and all the lines of a run that completes.
\<close>

definition expected_manifest ::
  "(string \<times> string \<times> string list) list \<Rightarrow> path \<Rightarrow> path \<Rightarrow> fs \<Rightarrow> asset_entry list" where
  "expected_manifest cs a out t =
     concat (map (\<lambda>(sub, kind, exts).
                    map (asset_record kind (out @ [sub])) (discover sub exts a t)) cs)"

definition expected_lines ::
  "(string \<times> string \<times> string list) list \<Rightarrow> path \<Rightarrow> fs \<Rightarrow> string list" where
  "expected_lines cs a t =
     concat (map (\<lambda>(sub, kind, exts). map (processing_line kind) (discover sub exts a t)) cs)"

definition run_lines :: "path \<Rightarrow> path \<Rightarrow> fs \<Rightarrow> string list" where
  "run_lines a out t =
     [''Starting asset processing...''] @ expected_lines categories a t @
     [''Generated manifest: '' @ str_path (out @ [''asset_manifest.json'']),
      ''Asset processing complete!'']"

text \<open>
  The paths that a loop may write: the output directory of the category, when the
  category directory exists, and the destination of the copy of each file it selects.
  And those of a whole run: the output directory, the manifest file, and the paths of
  the four loops.
\<close>

definition category_footprint ::
  "string \<Rightarrow> string list \<Rightarrow> path \<Rightarrow> path \<Rightarrow> fs \<Rightarrow> path \<Rightarrow> bool" where
  "category_footprint sub exts a out t q =
     ((path_exists t (a @ [sub]) \<and> q = out @ [sub]) \<or>
      (\<exists>f \<in> set (discover sub exts a t). q = copy_target t f (out @ [sub, name f])))"

definition run_footprint :: "AssetProcessor \<Rightarrow> fs \<Rightarrow> path \<Rightarrow> bool" where
  "run_footprint self t q =
     (q = output_dir self \<or> q = manifest_file self \<or>
      (\<exists>(sub, kind, exts) \<in> set categories.
         category_footprint sub exts (assets_dir self) (output_dir self) t q))"

subsection \<open>Example projects\<close>

text \<open>
  The project of the end-to-end scenario: one texture and one fragment shader, no
  output directory and no manifest yet.
\<close>

definition end_to_end_project :: "content \<Rightarrow> content \<Rightarrow> world" where
  "end_to_end_project png frag =
     \<lparr>files = [([''assets''], Dir),
               ([''assets'', ''textures''], Dir),
               ([''assets'', ''textures'', ''a.png''], File png),
               ([''assets'', ''shaders''], Dir),
               ([''assets'', ''shaders'', ''b.frag''], File frag)],
      stdout = []\<rparr>"

definition end_to_end_manifest :: "asset_entry list" where
  "end_to_end_manifest =
     [\<lparr>entry_type = ''texture'', entry_source = ''assets/textures/a.png'',
       entry_output = ''output/textures/a.png''\<rparr>,
      \<lparr>entry_type = ''shader'', entry_source = ''assets/shaders/b.frag'',
       entry_output = ''output/shaders/b.frag''\<rparr>]"

definition end_to_end_result :: "content \<Rightarrow> content \<Rightarrow> world" where
  "end_to_end_result png frag =
     \<lparr>files = files (end_to_end_project png frag) @
              [([''output''], Dir),
               ([''output'', ''textures''], Dir),
               ([''output'', ''textures'', ''a.png''], File png),
               ([''output'', ''shaders''], Dir),
               ([''output'', ''shaders'', ''b.frag''], File frag),
               ([''output'', ''asset_manifest.json''],
                File (JsonText (manifest_json end_to_end_manifest)))],
      stdout = [''Starting asset processing...'',
                ''Processing texture: a.png'',
                ''Processing shader: b.frag'',
                ''Generated manifest: output/asset_manifest.json'',
                ''Asset processing complete!'']\<rparr>"

text \<open>A working directory with nothing in it.\<close>

definition empty_project :: world where
  "empty_project = \<lparr>files = [], stdout = []\<rparr>"

text \<open>
  What an atomic save would guarantee of a state of the tree during a save: the manifest
  path holds what it held before the save, or the complete new manifest.
\<close>

definition intact_or_new :: "AssetProcessor \<Rightarrow> world \<Rightarrow> fs \<Rightarrow> bool" where
  "intact_or_new self w t =
     (stat t (manifest_file self) = stat (files w) (manifest_file self) \<or>
      stat t (manifest_file self) = Some (File (JsonText (manifest_json (manifest self)))))"

text \<open>
  A processor about to save a manifest of one entry over the manifest of an earlier run,
  which had none.
\<close>

definition saving_processor :: AssetProcessor where
  "saving_processor =
     \<lparr>assets_dir = [''assets''], output_dir = [''processed_assets''],
      manifest = [\<lparr>entry_type = ''texture'', entry_source = ''assets/textures/a.png'',
                   entry_output = ''processed_assets/textures/a.png''\<rparr>]\<rparr>"

definition saved_before :: world where
  "saved_before =
     \<lparr>files = [([''processed_assets''], Dir),
               ([''processed_assets'', ''asset_manifest.json''],
                File (JsonText (manifest_json [])))],
      stdout = []\<rparr>"

text \<open>The keys of a JSON object.\<close>

fun json_keys :: "json \<Rightarrow> string list" where
  "json_keys (JObject kvs) = map fst kvs"
| "json_keys (JString s) = []"
| "json_keys (JArray xs) = []"

text \<open>
  The manifest layout of the specification: an object with one key per asset ID, each
  value a record that has the seven fields named there.
\<close>

definition spec_entry_keys :: "string list" where
  "spec_entry_keys =
     [''type'', ''sourcePaths'', ''outputPath'', ''contentHash'', ''processorVersion'',
      ''status'', ''timestamp'']"

fun spec_entry_shape :: "json \<Rightarrow> bool" where
  "spec_entry_shape (JObject kvs) = list_all (\<lambda>k. k \<in> set (map fst kvs)) spec_entry_keys"
| "spec_entry_shape (JString s) = False"
| "spec_entry_shape (JArray xs) = False"

fun spec_manifest_shape :: "json \<Rightarrow> bool" where
  "spec_manifest_shape (JObject kvs) =
     (distinct (map fst kvs) \<and> list_all (\<lambda>kv. spec_entry_shape (snd kv)) kvs)"
| "spec_manifest_shape (JString s) = False"
| "spec_manifest_shape (JArray xs) = False"

text \<open>A texture one level further down, in a subdirectory of the textures directory.\<close>

definition nested_project :: world where
  "nested_project =
     \<lparr>files = [([''assets''], Dir),
               ([''assets'', ''textures''], Dir),
               ([''assets'', ''textures'', ''ui''], Dir),
               ([''assets'', ''textures'', ''ui'', ''c.png''], File (Bytes ''PNG c''))],
      stdout = []\<rparr>"

text \<open>A texture whose place in the output tree is already taken by a directory.\<close>

definition occupied_project :: world where
  "occupied_project =
     \<lparr>files = [([''assets''], Dir),
               ([''assets'', ''textures''], Dir),
               ([''assets'', ''textures'', ''a.png''], File (Bytes ''PNG a'')),
               ([''processed_assets''], Dir),
               ([''processed_assets'', ''textures''], Dir),
               ([''processed_assets'', ''textures'', ''a.png''], Dir)],
      stdout = []\<rparr>"

text \<open>
  A project whose output path \<^verbatim>\<open>processed_assets\<close> is a regular file; a textures
  directory that lists a directory named like a texture before a texture; and one with
  an upper-case extension, an unlisted one, a name that is all extension, and a texture
  one level down.
\<close>

definition blocked_assets_project :: world where
  "blocked_assets_project =
     \<lparr>files = [([''assets''], Dir),
               ([''assets'', ''textures''], Dir),
               ([''assets'', ''textures'', ''a.png''], File (Bytes ''PNG a'')),
               ([''processed_assets''], File (Bytes ''not a directory''))],
      stdout = []\<rparr>"

definition png_directory_project :: world where
  "png_directory_project =
     \<lparr>files = [([''assets''], Dir),
               ([''assets'', ''textures''], Dir),
               ([''assets'', ''textures'', ''d.png''], Dir),
               ([''assets'', ''textures'', ''a.png''], File (Bytes ''PNG a''))],
      stdout = []\<rparr>"

definition mixed_project :: world where
  "mixed_project =
     \<lparr>files = [([''assets''], Dir),
               ([''assets'', ''textures''], Dir),
               ([''assets'', ''textures'', ''LOGO.PNG''], File (Bytes ''PNG logo'')),
               ([''assets'', ''textures'', ''notes.txt''], File (Bytes ''todo'')),
               ([''assets'', ''textures'', ''.png''], File (Bytes ''hidden'')),
               ([''assets'', ''textures'', ''ui''], Dir),
               ([''assets'', ''textures'', ''ui'', ''c.png''], File (Bytes ''PNG c''))],
      stdout = []\<rparr>"

text \<open>What a run with the default directories leaves of it.\<close>

definition mixed_manifest :: "asset_entry list" where
  "mixed_manifest =
     [\<lparr>entry_type = ''texture'', entry_source = ''assets/textures/LOGO.PNG'',
       entry_output = ''processed_assets/textures/LOGO.PNG''\<rparr>]"

definition mixed_result :: world where
  "mixed_result =
     \<lparr>files = files mixed_project @
              [([''processed_assets''], Dir),
               ([''processed_assets'', ''textures''], Dir),
               ([''processed_assets'', ''textures'', ''LOGO.PNG''], File (Bytes ''PNG logo'')),
               ([''processed_assets'', ''asset_manifest.json''],
                File (JsonText (manifest_json mixed_manifest)))],
      stdout = [''Starting asset processing...'',
                ''Processing texture: LOGO.PNG'',
                ''Generated manifest: processed_assets/asset_manifest.json'',
                ''Asset processing complete!'']\<rparr>"







section \<open>Properties of the shader script\<close>

lemma mkdir_parents_dirs:
  "mkdir_parents t p = Inr t' \<Longrightarrow> \<exists>ds. t' = t @ map (\<lambda>q. (q, Dir)) ds"
proof (induction t p arbitrary: t' rule: mkdir_parents.induct)
  case (1 t p)
  show ?case
  proof (cases "stat t p")
    case None
    note sp = this
    show ?thesis
    proof (cases "stat t (butlast p)")
      case None
      with sp "1.prems" obtain t1 where m: "mkdir_parents t (butlast p) = Inr t1" and t': "t' = t1 @ [(p, Dir)]"
        by (subst (asm) mkdir_parents.simps) (auto split: sum.splits)
      from "1.IH"[OF sp None m] obtain ds where "t1 = t @ map (\<lambda>q. (q, Dir)) ds" by blast
      with t' have "t' = t @ map (\<lambda>q. (q, Dir)) (ds @ [p])" by simp
      then show ?thesis by blast
    next
      case (Some n)
      with sp "1.prems" have "t' = t @ map (\<lambda>q. (q, Dir)) [p]"
        by (subst (asm) mkdir_parents.simps) (auto split: node.splits)
      then show ?thesis by blast
    qed
  next
    case (Some n)
    with "1.prems" have "t' = t @ map (\<lambda>q. (q, Dir)) []"
      by (subst (asm) mkdir_parents.simps) (auto split: node.splits)
    then show ?thesis by blast
  qed
qed

lemma stat_append_dirs:
  "stat (t @ map (\<lambda>q. (q, Dir)) ds) p = Some (File c) \<Longrightarrow> stat t p = Some (File c)"
  by (auto simp: stat_def map_of_append map_add_def split: if_splits option.splits dest!: map_of_SomeD)

lemma creatable_iff: "creatable t p \<longleftrightarrow> (\<forall>k \<le> length p. \<not> is_file t (take k p))"
  unfolding creatable_def list_all_iff by (auto simp del: upt_Suc simp: less_Suc_eq_le)

lemma creatable_butlast: "creatable t p \<Longrightarrow> creatable t (butlast p)"
  unfolding creatable_iff
proof (intro allI impI)
  fix k assume a: "\<forall>k \<le> length p. \<not> is_file t (take k p)" and k: "k \<le> length (butlast p)"
  then have kl: "k \<le> length p - 1" by auto
  then have "take k (butlast p) = take k p" by (cases p rule: rev_cases) auto
  moreover from kl have "k \<le> length p" by arith
  ultimately show "\<not> is_file t (take k (butlast p))" using a by auto
qed

lemma creatable_self: "creatable t p \<Longrightarrow> \<not> is_file t p"
  unfolding creatable_iff by (auto dest: spec[where x="length p"])

lemma mkdir_parents_ok: "creatable t p \<Longrightarrow> \<exists>t'. mkdir_parents t p = Inr t'"
proof (induction t p rule: mkdir_parents.induct)
  case (1 t p)
  have nf: "\<not> is_file t p" and nfb: "\<not> is_file t (butlast p)"
    using "1.prems" creatable_self creatable_butlast by blast+
  show ?case
  proof (cases "stat t p")
    case None
    note sp = this
    show ?thesis
    proof (cases "stat t (butlast p)")
      case None
      from "1.IH"[OF sp None creatable_butlast[OF "1.prems"]] obtain t1 where "mkdir_parents t (butlast p) = Inr t1" by blast
      with sp None show ?thesis by (subst mkdir_parents.simps) simp
    next
      case (Some n)
      with sp nfb show ?thesis by (subst mkdir_parents.simps) (auto simp: is_file_def split: node.splits)
    qed
  next
    case (Some n)
    with nf show ?thesis by (subst mkdir_parents.simps) (auto simp: is_file_def split: node.splits)
  qed
qed

lemma below_prefix: "below t d p \<Longrightarrow> prefix d p \<and> drop (length d) p \<noteq> [] \<and> last (drop (length d) p) = last p"
  unfolding below_def by (metis append_take_drop_id drop_eq_Nil last_drop linorder_not_le prefixI)

lemma compile_loop_ok:
  "\<forall>f \<in> set fl. prefix i f \<and> drop (length i) f \<noteq> [] \<and> last f \<noteq> [] \<Longrightarrow>
   \<exists>w'. compile_loop i out fl w = Inr (None, w') \<and> files w' = files w \<and>
        length (stdout w') = length (stdout w) + length fl"
proof (induction fl arbitrary: w)
  case Nil
  then show ?case by simp
next
  case (Cons f fl)
  let ?rel = "drop (length i) f"
  from Cons.prems have p: "prefix i f" and ne: "?rel \<noteq> []" and l: "last f \<noteq> []" by auto
  from ne have "last ?rel = last f" by simp
  with ne l have nm: "name ?rel \<noteq> []" by (simp add: name_def)
  obtain rel_spv where ws: "with_suffix ?rel ''.spv'' = Inr rel_spv"
    using nm by (simp add: with_suffix_def)
  let ?w1 = "print (''Compiling '' @ str_path f @ '' -> '' @ str_path (out @ rel_spv)) w"
  from Cons.prems have "\<forall>f \<in> set fl. prefix i f \<and> drop (length i) f \<noteq> [] \<and> last f \<noteq> []" by simp
  from Cons.IH[OF this, of ?w1] obtain w' where
    "compile_loop i out fl ?w1 = Inr (None, w')" "files w' = files ?w1"
    "length (stdout w') = length (stdout ?w1) + length fl" by blast
  then show ?case using p ws
    by (simp add: relative_to_def compile_shader_def print_def)
qed


lemma rglob_member:
  "f \<in> set (rglob t d ext) \<Longrightarrow> ext \<noteq> [] \<Longrightarrow>
   prefix d f \<and> drop (length d) f \<noteq> [] \<and> last f \<noteq> []"
proof -
  assume a: "f \<in> set (rglob t d ext)" and e: "ext \<noteq> []"
  then have b: "below t d f" and en: "ends_with (name f) ext"
    by (auto simp: rglob_def split: if_splits)
  from b have "f \<noteq> []" by (auto simp: below_def)
  moreover from en e have "name f \<noteq> []" by (auto simp: ends_with_def)
  ultimately have "last f \<noteq> []" by (simp add: name_def)
  with below_prefix[OF b] show ?thesis by simp
qed

text \<open>
  Claim C1, as the code has it. \<^verbatim>\<open>compile_shader\<close> returns \<^verbatim>\<open>True\<close> on every input
  and leaves the file tree as it was. Consequently, when the input directory exists
  and the output directory can be created (no prefix of its path is a regular file),
  the script returns 0 whatever the shaders contain, having added no regular file to the
  tree, and its last line reports as compiled the number of shaders it discovered.
\<close>

theorem compile_shader_stub:
  "fst (compile_shader input_file output_file shader_type w) \<and>
   files (snd (compile_shader input_file output_file shader_type w)) = files w \<and>
   (path_exists (files w) input_dir \<and> creatable (files w) out_dir \<longrightarrow>
    (\<exists>w'. shader_main (Namespace input_dir out_dir) w = Inr (0, w') \<and>
          (\<forall>p c. stat (files w') p = Some (File c) \<longrightarrow> stat (files w) p = Some (File c)) \<and>
          length (stdout w') =
            length (stdout w) +
            length (rglob (files w') input_dir ''.hlsl'' @ rglob (files w') input_dir ''.glsl'') + 1 \<and>
          last (stdout w') =
            ''Successfully compiled '' @
            show_nat (length (rglob (files w') input_dir ''.hlsl'' @
                              rglob (files w') input_dir ''.glsl'')) @ '' shaders''))"
proof (intro conjI impI)
  show "fst (compile_shader input_file output_file shader_type w)"
    by (simp add: compile_shader_def)
  show "files (snd (compile_shader input_file output_file shader_type w)) = files w"
    by (simp add: compile_shader_def print_def)
next
  assume h: "path_exists (files w) input_dir \<and> creatable (files w) out_dir"
  then obtain t where mk: "mkdir_parents (files w) out_dir = Inr t"
    using mkdir_parents_ok by blast
  let ?fl = "rglob t input_dir ''.hlsl'' @ rglob t input_dir ''.glsl''"
  have "\<forall>f \<in> set ?fl. prefix input_dir f \<and> drop (length input_dir) f \<noteq> [] \<and> last f \<noteq> []"
    using rglob_member by fastforce
  from compile_loop_ok[OF this, of out_dir "w\<lparr>files := t\<rparr>"] obtain w1 where
    cl: "compile_loop input_dir out_dir ?fl (w\<lparr>files := t\<rparr>) = Inr (None, w1)" and
    f1: "files w1 = t" and l1: "length (stdout w1) = length (stdout w) + length ?fl"
    by auto
  let ?w' = "print (''Successfully compiled '' @ show_nat (length ?fl) @ '' shaders'') w1"
  have run: "shader_main (Namespace input_dir out_dir) w = Inr (0, ?w')"
    using h mk cl by (simp add: shader_main_def)
  have fw: "files ?w' = t" using f1 by (simp add: print_def)
  from mkdir_parents_dirs[OF mk] obtain ds where "t = files w @ map (\<lambda>q. (q, Dir)) ds" by blast
  then have keep: "\<forall>p c. stat (files ?w') p = Some (File c) \<longrightarrow> stat (files w) p = Some (File c)"
    using fw stat_append_dirs by metis
  have "length (stdout ?w') = length (stdout w) + length ?fl + 1"
    using l1 by (simp add: print_def)
  moreover have "last (stdout ?w') = ''Successfully compiled '' @ show_nat (length ?fl) @ '' shaders''"
    by (simp add: print_def)
  ultimately show "\<exists>w'. shader_main (Namespace input_dir out_dir) w = Inr (0, w') \<and>
          (\<forall>p c. stat (files w') p = Some (File c) \<longrightarrow> stat (files w) p = Some (File c)) \<and>
          length (stdout w') =
            length (stdout w) +
            length (rglob (files w') input_dir ''.hlsl'' @ rglob (files w') input_dir ''.glsl'') + 1 \<and>
          last (stdout w') =
            ''Successfully compiled '' @
            show_nat (length (rglob (files w') input_dir ''.hlsl'' @
                              rglob (files w') input_dir ''.glsl'')) @ '' shaders''"
    using run keep fw by (intro exI[of _ ?w']) simp
qed

theorem compile_shader_stub_witness:
  "path_exists (files shader_project) [''shaders''] \<and>
   creatable (files shader_project) [''build'', ''spv''] \<and>
   (\<exists>w'. shader_main (Namespace [''shaders''] [''build'', ''spv'']) shader_project = Inr (0, w') \<and>
         last (stdout w') = ''Successfully compiled 2 shaders'')"
proof -
  have h: "path_exists (files shader_project) [''shaders''] \<and>
           creatable (files shader_project) [''build'', ''spv'']"
    unfolding shader_project_def by code_simp
  from compile_shader_stub[of "[]" "[]" "[]" shader_project "[''shaders'']" "[''build'', ''spv'']"] h
  obtain w' where r: "shader_main (Namespace [''shaders''] [''build'', ''spv'']) shader_project = Inr (0, w')"
    by blast
  have e: "shader_main (Namespace [''shaders''] [''build'', ''spv'']) shader_project =
     Inr (0, \<lparr>files = files shader_project @ [([''build''], Dir), ([''build'', ''spv''], Dir)],
              stdout = [''Compiling shaders/basic.hlsl -> build/spv/basic.spv'',
                        ''Compiling shaders/post/blur.glsl -> build/spv/post/blur.spv'',
                        ''Successfully compiled 2 shaders'']\<rparr>)"
    unfolding shader_project_def by code_simp
  from r e have "stdout w' = [''Compiling shaders/basic.hlsl -> build/spv/basic.spv'',
                        ''Compiling shaders/post/blur.glsl -> build/spv/post/blur.spv'',
                        ''Successfully compiled 2 shaders'']" by auto
  then have "last (stdout w') = ''Successfully compiled 2 shaders''" by simp
  with h r show ?thesis by blast
qed

text \<open>
  The condition on the output directory cannot be dropped: the input directory exists,
  the output path is a regular file, and \<^verbatim>\<open>mkdir\<close> raises before any shader is
  looked for, so the script does not return 0.
\<close>

theorem shader_main_output_blocked:
  "path_exists (files blocked_output) [''shaders''] \<and>
   shader_main (Namespace [''shaders''] [''build'']) blocked_output = Inl (FileExistsError, blocked_output)"
  unfolding blocked_output_def by code_simp

section \<open>The file tree under the operations\<close>

lemma preserved_refl: "preserved Q t t"
  by (simp add: preserved_def)

lemma preserved_trans: "preserved Q t t1 \<Longrightarrow> preserved Q t1 t2 \<Longrightarrow> preserved Q t t2"
  by (simp add: preserved_def)

lemma filter_weaker:
  "(\<And>x. P x \<Longrightarrow> R x) \<Longrightarrow> filter P (filter R xs) = filter P xs"
  by (induction xs) auto

lemma preserved_mono:
  assumes "preserved Q t t'" and "\<And>p. Q p \<Longrightarrow> Q' p"
  shows "preserved Q' t t'"
proof -
  have w: "\<And>xs::fs. filter (\<lambda>e. \<not> Q' (fst e)) (filter (\<lambda>e. \<not> Q (fst e)) xs) = filter (\<lambda>e. \<not> Q' (fst e)) xs"
    by (rule filter_weaker) (use assms(2) in blast)
  from assms(1) have e: "filter (\<lambda>e. \<not> Q (fst e)) t' = filter (\<lambda>e. \<not> Q (fst e)) t"
    unfolding preserved_def .
  have "filter (\<lambda>e. \<not> Q' (fst e)) t' = filter (\<lambda>e. \<not> Q' (fst e)) (filter (\<lambda>e. \<not> Q (fst e)) t')"
    by (rule w[symmetric])
  also have "\<dots> = filter (\<lambda>e. \<not> Q' (fst e)) (filter (\<lambda>e. \<not> Q (fst e)) t)"
    using e by (rule arg_cong)
  also have "\<dots> = filter (\<lambda>e. \<not> Q' (fst e)) t" by (rule w)
  finally show ?thesis unfolding preserved_def .
qed

lemma filter_update_other:
  "(\<And>v'. \<not> P (k, v')) \<Longrightarrow> filter P (AList.update k v t) = filter P t"
  by (induction t) auto

lemma preserved_update: "Q k \<Longrightarrow> preserved Q t (AList.update k v t)"
  unfolding preserved_def by (rule filter_update_other) simp

lemma preserved_append: "Q k \<Longrightarrow> preserved Q t (t @ [(k, v)])"
  by (simp add: preserved_def)

lemma map_of_filter_not:
  "\<not> Q k \<Longrightarrow> map_of (filter (\<lambda>e. \<not> Q (fst e)) t) k = map_of t k"
  by (induction t) auto

lemma preserved_stat: "preserved Q t t' \<Longrightarrow> \<not> Q q \<Longrightarrow> stat t' q = stat t q"
proof -
  assume p: "preserved Q t t'" and q: "\<not> Q q"
  have a: "map_of (filter (\<lambda>e. \<not> Q (fst e)) t') q = map_of t' q"
    using q by (rule map_of_filter_not)
  have b: "map_of (filter (\<lambda>e. \<not> Q (fst e)) t) q = map_of t q"
    using q by (rule map_of_filter_not)
  from p have e: "filter (\<lambda>e. \<not> Q (fst e)) t' = filter (\<lambda>e. \<not> Q (fst e)) t"
    unfolding preserved_def .
  have "map_of t' q = map_of (filter (\<lambda>e. \<not> Q (fst e)) t') q" using a by (rule sym)
  also have "\<dots> = map_of (filter (\<lambda>e. \<not> Q (fst e)) t) q"
    using e by (rule arg_cong[where f="\<lambda>x. map_of x q"])
  also note b
  finally have m: "map_of t' q = map_of t q" .
  show ?thesis unfolding stat_def m ..
qed

lemma preserved_iterdir:
  assumes "preserved Q t t'" and "\<And>x. \<not> Q (d @ [x])"
  shows "iterdir t' d = iterdir t d"
proof -
  have child: "\<And>p. p \<noteq> [] \<and> butlast p = d \<Longrightarrow> \<not> Q p"
    using assms(2) by (metis append_butlast_last_id)
  have w: "\<And>xs::fs. filter (\<lambda>e. fst e \<noteq> [] \<and> butlast (fst e) = d) (filter (\<lambda>e. \<not> Q (fst e)) xs) =
          filter (\<lambda>e. fst e \<noteq> [] \<and> butlast (fst e) = d) xs"
    by (rule filter_weaker) (use child in blast)
  from assms(1) have e: "filter (\<lambda>e. \<not> Q (fst e)) t' = filter (\<lambda>e. \<not> Q (fst e)) t"
    unfolding preserved_def .
  have "filter (\<lambda>e. fst e \<noteq> [] \<and> butlast (fst e) = d) t' =
        filter (\<lambda>e. fst e \<noteq> [] \<and> butlast (fst e) = d) (filter (\<lambda>e. \<not> Q (fst e)) t')"
    by (rule w[symmetric])
  also have "\<dots> = filter (\<lambda>e. fst e \<noteq> [] \<and> butlast (fst e) = d) (filter (\<lambda>e. \<not> Q (fst e)) t)"
    using e by (rule arg_cong)
  also have "\<dots> = filter (\<lambda>e. fst e \<noteq> [] \<and> butlast (fst e) = d) t" by (rule w)
  finally have f: "filter (\<lambda>e. fst e \<noteq> [] \<and> butlast (fst e) = d) t' =
                   filter (\<lambda>e. fst e \<noteq> [] \<and> butlast (fst e) = d) t" .
  have "\<And>xs::fs. filter (\<lambda>p. p \<noteq> [] \<and> butlast p = d) (map fst xs) =
        map fst (filter (\<lambda>e. fst e \<noteq> [] \<and> butlast (fst e) = d) xs)"
    by (simp add: filter_map comp_def)
  then show ?thesis unfolding iterdir_def using f by simp
qed

lemma preserved_glob_star:
  assumes "preserved Q t t'" and "\<not> Q d" and "\<And>x. \<not> Q (d @ [x])"
  shows "glob_star t' d = glob_star t d"
proof -
  have "stat t' d = stat t d" using assms(1,2) by (rule preserved_stat)
  moreover have "iterdir t' d = iterdir t d" using assms(1,3) by (rule preserved_iterdir)
  ultimately show ?thesis by (simp add: glob_star_def is_dir_def)
qed

lemma stat_update: "k \<noteq> [] \<Longrightarrow> stat (AList.update k v t) p = (if p = k then Some v else stat t p)"
  by (simp add: stat_def update_conv')

lemma stat_append_new:
  "stat t p = None \<Longrightarrow> stat (t @ [(p, v)]) q = (if q = p then Some v else stat t q)"
  by (auto simp: stat_def map_add_def split: if_splits option.splits)

lemma mkdir_exist_ok_Inr:
  assumes "mkdir_exist_ok t p = Inr t'"
  shows "is_dir t' p \<and> preserved (\<lambda>q. q = p) t t' \<and> (is_dir t p \<longrightarrow> t' = t)"
proof (cases "stat t p")
  case None
  with assms have "t' = t @ [(p, Dir)]"
    by (auto simp: mkdir_exist_ok_def split: option.splits node.splits)
  with None show ?thesis
    by (simp add: is_dir_def stat_append_new preserved_append)
next
  case (Some n)
  with assms have "n = Dir" "t' = t"
    by (auto simp: mkdir_exist_ok_def split: node.splits)
  with Some show ?thesis by (simp add: is_dir_def preserved_refl)
qed

lemma open_w_Inr:
  "open_w t p = Inr t' \<Longrightarrow> p \<noteq> [] \<and> \<not> is_dir t p \<and> t' = AList.update p (File (Bytes [])) t"
  by (auto simp: open_w_def is_dir_def stat_def split: option.splits node.splits if_splits)

lemma copy2_Inr:
  assumes "copy2 t src dst = Inr t'"
  shows "\<exists>c. stat t src = Some (File c) \<and> copy_target t src dst \<noteq> [] \<and>
             copy_target t src dst \<noteq> src \<and> \<not> is_dir t (copy_target t src dst) \<and>
             t' = AList.update (copy_target t src dst) (File c) t"
proof -
  let ?g = "copy_target t src dst"
  from assms obtain c t1 where s: "stat t src = Some (File c)" and o: "open_w t ?g = Inr t1"
    and t': "t' = write_all t1 ?g c" and ne: "\<not> (src = ?g \<and> path_exists t src)"
    by (auto simp: copy2_def Let_def split: if_splits option.splits node.splits sum.splits)
  from s ne have "?g \<noteq> src" by (auto simp: path_exists_def)
  moreover from open_w_Inr[OF o] t' have "t' = AList.update ?g (File c) t" "?g \<noteq> []" "\<not> is_dir t ?g"
    by (simp_all add: write_all_def)
  ultimately show ?thesis using s by blast
qed

section \<open>The loops of the asset script\<close>

lemma copy_target_cases:
  "copy_target t f (outd @ [name f]) = outd @ [name f] \<or>
   copy_target t f (outd @ [name f]) = outd @ [name f, name f]"
  by (simp add: copy_target_def)

lemma process_files_Inr:
  assumes "process_files kind exts outd fl self w = Inr (self', w')"
  shows "self' = self\<lparr>manifest := manifest self @
                     map (asset_record kind outd) (filter (recognized exts) fl)\<rparr> \<and>
         stdout w' = stdout w @ map (processing_line kind) (filter (recognized exts) fl) \<and>
         preserved (\<lambda>q. \<exists>g \<in> set fl. recognized exts g \<and>
                       (q = outd @ [name g] \<or> q = outd @ [name g, name g]))
           (files w) (files w')"
  using assms
proof (induction fl arbitrary: self w)
  case Nil
  then show ?case by (simp add: preserved_refl)
next
  case (Cons f rest)
  let ?Q = "\<lambda>q. \<exists>g \<in> set (f # rest). recognized exts g \<and>
                       (q = outd @ [name g] \<or> q = outd @ [name g, name g])"
  let ?R = "\<lambda>q. \<exists>g \<in> set rest. recognized exts g \<and>
                       (q = outd @ [name g] \<or> q = outd @ [name g, name g])"
  show ?case
  proof (cases "recognized exts f")
    case False
    with Cons.prems have r: "process_files kind exts outd rest self w = Inr (self', w')"
      by (simp add: recognized_def)
    from Cons.IH[OF r] have
      a: "self' = self\<lparr>manifest := manifest self @
                     map (asset_record kind outd) (filter (recognized exts) rest)\<rparr>" and
      b: "stdout w' = stdout w @ map (processing_line kind) (filter (recognized exts) rest)" and
      c: "preserved ?R (files w) (files w')" by blast+
    have "preserved ?Q (files w) (files w')"
      using c by (rule preserved_mono) auto
    with a b False show ?thesis by simp
  next
    case True
    let ?w1 = "print (''Processing '' @ kind @ '': '' @ name f) w"
    let ?s1 = "self\<lparr>manifest := manifest self @
                  [\<lparr>entry_type = kind, entry_source = str_path f,
                    entry_output = str_path (outd @ [name f])\<rparr>]\<rparr>"
    from Cons.prems True obtain t1 where
      cp: "copy2 (files w) f (outd @ [name f]) = Inr t1" and
      r: "process_files kind exts outd rest ?s1 (?w1\<lparr>files := t1\<rparr>) = Inr (self', w')"
      by (auto simp: recognized_def print_def Let_def split: sum.splits)
    from copy2_Inr[OF cp] obtain c where
      t1: "t1 = AList.update (copy_target (files w) f (outd @ [name f])) (File c) (files w)"
      by blast
    have "preserved (\<lambda>q. q = copy_target (files w) f (outd @ [name f])) (files w) t1"
      unfolding t1 by (rule preserved_update) simp
    then have p1: "preserved ?Q (files w) t1"
      by (rule preserved_mono) (use True copy_target_cases[of "files w" f outd] in auto)
    from Cons.IH[OF r] have
      a: "self' = ?s1\<lparr>manifest := manifest ?s1 @
                     map (asset_record kind outd) (filter (recognized exts) rest)\<rparr>" and
      b: "stdout w' = stdout (?w1\<lparr>files := t1\<rparr>) @
                      map (processing_line kind) (filter (recognized exts) rest)" and
      c: "preserved ?R (files (?w1\<lparr>files := t1\<rparr>)) (files w')" by blast+
    from c have "preserved ?R t1 (files w')" by simp
    then have "preserved ?Q t1 (files w')" by (rule preserved_mono) auto
    with p1 have "preserved ?Q (files w) (files w')" by (rule preserved_trans)
    moreover from a True have "self' = self\<lparr>manifest := manifest self @
                     map (asset_record kind outd) (filter (recognized exts) (f # rest))\<rparr>"
      by (simp add: asset_record_def)
    moreover from b True have "stdout w' = stdout w @
            map (processing_line kind) (filter (recognized exts) (f # rest))"
      by (simp add: print_def processing_line_def)
    ultimately show ?thesis by blast
  qed
qed

lemma copy_target_prefix: "prefix outd (copy_target t f (outd @ [name f]))"
  by (simp add: copy_target_def)

lemma copy_target_stable:
  assumes "stat t' (copy_target t f dst) = Some (File c)"
      and "is_dir t dst \<Longrightarrow> is_dir t' dst"
  shows "copy_target t' f dst = copy_target t f dst"
proof (cases "is_dir t dst")
  case True
  with assms(2) show ?thesis by (simp add: copy_target_def)
next
  case False
  with assms(1) have "\<not> is_dir t' dst" by (simp add: copy_target_def is_dir_def)
  with False show ?thesis by (simp add: copy_target_def)
qed

lemma process_files_copied:
  assumes "process_files kind exts outd fl self w = Inr (self', w')"
      and "f0 \<in> set fl" and "recognized exts f0"
      and "distinct (map name fl)" and "\<forall>g \<in> set fl. \<not> prefix outd g"
  shows "\<exists>c. stat (files w) f0 = Some (File c) \<and>
             stat (files w') (copy_target (files w) f0 (outd @ [name f0])) = Some (File c) \<and>
             copy_target (files w') f0 (outd @ [name f0]) =
             copy_target (files w) f0 (outd @ [name f0])"
  using assms
proof (induction fl arbitrary: self w)
  case Nil
  then show ?case by simp
next
  case (Cons f rest)
  let ?R = "\<lambda>q. \<exists>g \<in> set rest. recognized exts g \<and>
                       (q = outd @ [name g] \<or> q = outd @ [name g, name g])"
  from Cons.prems have dr: "distinct (map name rest)" and nf: "name f \<notin> name ` set rest"
    and outr: "\<forall>g \<in> set rest. \<not> prefix outd g" and outf: "\<not> prefix outd f" by auto
  show ?case
  proof (cases "recognized exts f")
    case False
    with Cons.prems have r: "process_files kind exts outd rest self w = Inr (self', w')"
      by (simp add: recognized_def)
    from False Cons.prems have "f0 \<in> set rest" by auto
    from Cons.IH[OF r this Cons.prems(3) dr outr] show ?thesis .
  next
    case True
    let ?w1 = "print (''Processing '' @ kind @ '': '' @ name f) w"
    let ?s1 = "self\<lparr>manifest := manifest self @
                  [\<lparr>entry_type = kind, entry_source = str_path f,
                    entry_output = str_path (outd @ [name f])\<rparr>]\<rparr>"
    let ?g = "copy_target (files w) f (outd @ [name f])"
    from Cons.prems True obtain t1 where
      cp: "copy2 (files w) f (outd @ [name f]) = Inr t1" and
      r: "process_files kind exts outd rest ?s1 (?w1\<lparr>files := t1\<rparr>) = Inr (self', w')"
      by (auto simp: recognized_def print_def Let_def split: sum.splits)
    from copy2_Inr[OF cp] obtain c where
      sf: "stat (files w) f = Some (File c)" and gne: "?g \<noteq> []" and
      t1: "t1 = AList.update ?g (File c) (files w)"
      by blast
    have st1: "\<And>p. stat t1 p = (if p = ?g then Some (File c) else stat (files w) p)"
      unfolding t1 using gne by (rule stat_update)
    have gc: "?g = outd @ [name f] \<or> ?g = outd @ [name f, name f]"
      by (rule copy_target_cases)
    show ?thesis
    proof (cases "f0 = f")
      case True
      from process_files_Inr[OF r] have "preserved ?R (files (?w1\<lparr>files := t1\<rparr>)) (files w')"
        by blast
      then have pr: "preserved ?R t1 (files w')" by simp
      have nn: "name g \<noteq> name f" if "g \<in> set rest" for g
        using that nf by (metis imageI)
      have "\<not> ?R ?g" using gc nn by auto
      with pr have "stat (files w') ?g = stat t1 ?g" by (rule preserved_stat)
      with st1 have sg: "stat (files w') ?g = Some (File c)" by simp
      have "is_dir (files w') (outd @ [name f])" if d: "is_dir (files w) (outd @ [name f])"
      proof -
        from d have "?g \<noteq> outd @ [name f]" by (simp add: copy_target_def)
        with st1 have "stat t1 (outd @ [name f]) = stat (files w) (outd @ [name f])" by simp
        moreover have "\<not> ?R (outd @ [name f])" using nn by fastforce
        with pr have "stat (files w') (outd @ [name f]) = stat t1 (outd @ [name f])"
          by (rule preserved_stat)
        ultimately show ?thesis using d by (simp add: is_dir_def)
      qed
      with sg have "copy_target (files w') f (outd @ [name f]) = ?g"
        by (rule copy_target_stable)
      with sg sf True show ?thesis by simp
    next
      case False
      with Cons.prems have in_rest: "f0 \<in> set rest" by auto
      from Cons.IH[OF r in_rest Cons.prems(3) dr outr] obtain c0 where
        a: "stat t1 f0 = Some (File c0)" and
        b: "stat (files w') (copy_target t1 f0 (outd @ [name f0])) = Some (File c0)" and
        b': "copy_target (files w') f0 (outd @ [name f0]) = copy_target t1 f0 (outd @ [name f0])"
        by auto
      from in_rest outr have "\<not> prefix outd f0" by blast
      moreover have "prefix outd ?g" by (rule copy_target_prefix)
      ultimately have "f0 \<noteq> ?g" by auto
      with a st1 have a': "stat (files w) f0 = Some (File c0)" by simp
      from in_rest nf have "name f0 \<noteq> name f" by (metis imageI)
      with gc have "outd @ [name f0] \<noteq> ?g" by auto
      with st1 have "stat t1 (outd @ [name f0]) = stat (files w) (outd @ [name f0])" by simp
      then have "copy_target t1 f0 (outd @ [name f0]) = copy_target (files w) f0 (outd @ [name f0])"
        by (simp add: copy_target_def is_dir_def)
      with a' b b' show ?thesis by simp
    qed
  qed
qed

lemma glob_star_child: "f \<in> set (glob_star t d) \<Longrightarrow> f = d @ [name f]"
  by (auto simp: glob_star_def iterdir_def name_def split: if_splits)

lemma glob_star_distinct_names: "distinct (map name (glob_star t d))"
proof -
  have "distinct (glob_star t d)" by (simp add: glob_star_def iterdir_def)
  moreover have "inj_on name (set (glob_star t d))"
  proof (rule inj_onI)
    fix x y assume "x \<in> set (glob_star t d)" "y \<in> set (glob_star t d)" "name x = name y"
    then show "x = y" using glob_star_child by metis
  qed
  ultimately show ?thesis by (simp add: distinct_map)
qed

lemma separate_outside: "separate a out \<Longrightarrow> \<not> prefix (out @ s) (a @ r)"
proof
  assume s: "separate a out" and p: "prefix (out @ s) (a @ r)"
  from p have "prefix out (a @ r)" using append_prefixD by blast
  moreover have "prefix a (a @ r)" by simp
  ultimately have "prefix out a \<or> prefix a out" by (rule prefix_same_cases)
  with s show False by (simp add: separate_def)
qed

lemma separate_discover:
  assumes "separate a out" and "preserved (prefix (out @ s)) t t'"
  shows "discover sub exts a t' = discover sub exts a t"
proof -
  have "\<not> prefix (out @ s) (a @ [sub])" using assms(1) by (rule separate_outside)
  moreover have "\<And>x. \<not> prefix (out @ s) ((a @ [sub]) @ [x])"
    using separate_outside[OF assms(1), of s "[sub, x]" for x] by simp
  ultimately have "glob_star t' (a @ [sub]) = glob_star t (a @ [sub])"
    using assms(2) preserved_glob_star by blast
  then show ?thesis by (simp add: discover_def)
qed

lemma process_category_Inr:
  assumes run: "process_category sub kind exts self w = Inr (self', w')"
      and sep: "separate (assets_dir self) (output_dir self)"
  shows "self' = self\<lparr>manifest := manifest self @
            map (asset_record kind (output_dir self @ [sub]))
                (discover sub exts (assets_dir self) (files w))\<rparr> \<and>
         stdout w' = stdout w @
            map (processing_line kind) (discover sub exts (assets_dir self) (files w)) \<and>
         preserved (prefix (output_dir self @ [sub])) (files w) (files w') \<and>
         (\<forall>f \<in> set (discover sub exts (assets_dir self) (files w)).
            \<exists>c. stat (files w) f = Some (File c) \<and>
                stat (files w') (copy_target (files w) f (output_dir self @ [sub, name f])) =
                  Some (File c) \<and>
                copy_target (files w') f (output_dir self @ [sub, name f]) =
                copy_target (files w) f (output_dir self @ [sub, name f])) \<and>
         (path_exists (files w) (assets_dir self @ [sub]) \<longrightarrow>
            is_dir (files w') (output_dir self @ [sub]))"
proof (cases "path_exists (files w) (assets_dir self @ [sub])")
  case False
  with run have "self' = self" "w' = w" by (simp_all add: process_category_def)
  moreover from False have "discover sub exts (assets_dir self) (files w) = []"
    by (simp add: discover_def glob_star_def is_dir_def path_exists_def)
  ultimately show ?thesis using False by (simp add: preserved_refl)
next
  case True
  let ?a = "assets_dir self" and ?o = "output_dir self"
  let ?src = "?a @ [sub]" and ?out = "?o @ [sub]"
  let ?D = "discover sub exts ?a (files w)"
  from run True obtain t where
    mk: "mkdir_exist_ok (files w) ?out = Inr t" and
    pf: "process_files kind exts ?out (glob_star t ?src) self (w\<lparr>files := t\<rparr>) = Inr (self', w')"
    by (auto simp: process_category_def Let_def split: sum.splits)
  from mkdir_exist_ok_Inr[OF mk] have dir_t: "is_dir t ?out" and
    pt: "preserved (\<lambda>q. q = ?out) (files w) t" by blast+
  from pt have pt': "preserved (prefix ?out) (files w) t"
    by (rule preserved_mono) simp
  have "discover sub exts ?a t = ?D"
    using sep pt' by (rule separate_discover)
  then have gl: "filter (recognized exts) (glob_star t ?src) = ?D"
    by (simp add: discover_def)
  let ?Q = "\<lambda>q. \<exists>g \<in> set (glob_star t ?src). recognized exts g \<and>
                       (q = ?out @ [name g] \<or> q = ?out @ [name g, name g])"
  from process_files_Inr[OF pf] gl have
    m: "self' = self\<lparr>manifest := manifest self @ map (asset_record kind ?out) ?D\<rparr>" and
    s: "stdout w' = stdout w @ map (processing_line kind) ?D" and
    pq: "preserved ?Q t (files w')" by auto
  from pq have "preserved (prefix ?out) t (files w')"
    by (rule preserved_mono) auto
  with pt' have pres: "preserved (prefix ?out) (files w) (files w')" by (rule preserved_trans)
  have "\<not> ?Q ?out" by auto
  with pq have "stat (files w') ?out = stat t ?out" by (rule preserved_stat)
  with dir_t have dir': "is_dir (files w') ?out" by (simp add: is_dir_def)
  have cop: "\<exists>c. stat (files w) f = Some (File c) \<and>
                stat (files w') (copy_target (files w) f (?o @ [sub, name f])) = Some (File c) \<and>
                copy_target (files w') f (?o @ [sub, name f]) =
                copy_target (files w) f (?o @ [sub, name f])"
    if f: "f \<in> set ?D" for f
  proof -
    from f gl have "f \<in> set (filter (recognized exts) (glob_star t ?src))" by simp
    then have fin: "f \<in> set (glob_star t ?src)" and rec: "recognized exts f"
      by simp_all
    have outside: "\<forall>g \<in> set (glob_star t ?src). \<not> prefix ?out g"
    proof
      fix g assume "g \<in> set (glob_star t ?src)"
      then have "g = ?a @ [sub, name g]" using glob_star_child by fastforce
      moreover have "\<not> prefix (?o @ [sub]) (?a @ [sub, name g])"
        using sep by (rule separate_outside)
      ultimately show "\<not> prefix ?out g" by simp
    qed
    from process_files_copied[OF pf fin rec glob_star_distinct_names outside]
    obtain c where a: "stat t f = Some (File c)" and
      b: "stat (files w') (copy_target t f (?out @ [name f])) = Some (File c)" and
      b': "copy_target (files w') f (?out @ [name f]) = copy_target t f (?out @ [name f])"
      by auto
    from outside fin have "f \<noteq> ?out" by auto
    with pt have e1: "stat t f = stat (files w) f" by (intro preserved_stat) auto
    have "stat t (?out @ [name f]) = stat (files w) (?out @ [name f])"
      using pt by (rule preserved_stat) simp
    then have e2: "copy_target t f (?out @ [name f]) = copy_target (files w) f (?out @ [name f])"
      by (simp add: copy_target_def is_dir_def)
    from a e1 have "stat (files w) f = Some (File c)" by simp
    moreover from b e2 have
      "stat (files w') (copy_target (files w) f (?o @ [sub, name f])) = Some (File c)" by simp
    moreover from b' e2 have "copy_target (files w') f (?o @ [sub, name f]) =
                copy_target (files w) f (?o @ [sub, name f])" by simp
    ultimately show ?thesis by blast
  qed
  from m s pres cop dir' show ?thesis by simp
qed

lemma process_categories_Inr:
  assumes "process_categories cs self w = Inr (self', w')"
      and "separate (assets_dir self) (output_dir self)"
      and "distinct (map fst cs)"
  shows "self' = self\<lparr>manifest := manifest self @
            expected_manifest cs (assets_dir self) (output_dir self) (files w)\<rparr> \<and>
         stdout w' = stdout w @ expected_lines cs (assets_dir self) (files w) \<and>
         preserved (\<lambda>q. \<exists>c \<in> set cs. prefix (output_dir self @ [fst c]) q) (files w) (files w') \<and>
         (\<forall>(sub, kind, exts) \<in> set cs.
            (\<forall>f \<in> set (discover sub exts (assets_dir self) (files w)).
               \<exists>c. stat (files w) f = Some (File c) \<and>
                   stat (files w') (copy_target (files w) f (output_dir self @ [sub, name f])) =
                     Some (File c) \<and>
                   copy_target (files w') f (output_dir self @ [sub, name f]) =
                   copy_target (files w) f (output_dir self @ [sub, name f])) \<and>
            (path_exists (files w) (assets_dir self @ [sub]) \<longrightarrow>
               is_dir (files w') (output_dir self @ [sub])))"
  using assms
proof (induction cs arbitrary: self w)
  case Nil
  then show ?case by (simp add: expected_manifest_def expected_lines_def preserved_refl)
next
  case (Cons c0 cs)
  obtain sub kind exts where c0: "c0 = (sub, kind, exts)" by (cases c0) auto
  let ?a = "assets_dir self" and ?o = "output_dir self"
  let ?Q = "\<lambda>q. \<exists>c \<in> set (c0 # cs). prefix (?o @ [fst c]) q"
  let ?R = "\<lambda>q. \<exists>c \<in> set cs. prefix (?o @ [fst c]) q"
  from Cons.prems(1) c0 obtain s1 w1 where
    cat: "process_category sub kind exts self w = Inr (s1, w1)" and
    rest: "process_categories cs s1 w1 = Inr (self', w')"
    by (auto split: sum.splits)
  from Cons.prems(3) c0 have dcs: "distinct (map fst cs)" and
    fresh: "\<And>c. c \<in> set cs \<Longrightarrow> fst c \<noteq> sub" by auto
  note sep = Cons.prems(2)
  from process_category_Inr[OF cat sep] have
    s1: "s1 = self\<lparr>manifest := manifest self @
            map (asset_record kind (?o @ [sub])) (discover sub exts ?a (files w))\<rparr>" and
    l1: "stdout w1 = stdout w @ map (processing_line kind) (discover sub exts ?a (files w))" and
    p1: "preserved (prefix (?o @ [sub])) (files w) (files w1)" and
    c1: "\<forall>f \<in> set (discover sub exts ?a (files w)).
            \<exists>c. stat (files w) f = Some (File c) \<and>
                stat (files w1) (copy_target (files w) f (?o @ [sub, name f])) = Some (File c) \<and>
                copy_target (files w1) f (?o @ [sub, name f]) =
                copy_target (files w) f (?o @ [sub, name f])" and
    d1: "path_exists (files w) (?a @ [sub]) \<longrightarrow> is_dir (files w1) (?o @ [sub])"
    by blast+
  from s1 have a1: "assets_dir s1 = ?a" and o1: "output_dir s1 = ?o" by simp_all
  from sep a1 o1 have sep1: "separate (assets_dir s1) (output_dir s1)" by simp
  have disc: "\<And>sub' exts'. discover sub' exts' ?a (files w1) = discover sub' exts' ?a (files w)"
    using sep p1 by (rule separate_discover)
  from Cons.IH[OF rest sep1 dcs] have
    s2: "self' = s1\<lparr>manifest := manifest s1 @ expected_manifest cs ?a ?o (files w1)\<rparr>" and
    l2: "stdout w' = stdout w1 @ expected_lines cs ?a (files w1)" and
    p2: "preserved ?R (files w1) (files w')" and
    c2: "\<forall>(sub', kind', exts') \<in> set cs.
            (\<forall>f \<in> set (discover sub' exts' ?a (files w1)).
               \<exists>c. stat (files w1) f = Some (File c) \<and>
                   stat (files w') (copy_target (files w1) f (?o @ [sub', name f])) =
                     Some (File c) \<and>
                   copy_target (files w') f (?o @ [sub', name f]) =
                   copy_target (files w1) f (?o @ [sub', name f])) \<and>
            (path_exists (files w1) (?a @ [sub']) \<longrightarrow> is_dir (files w') (?o @ [sub']))"
    unfolding a1 o1 by blast+
  have em: "expected_manifest cs ?a ?o (files w1) = expected_manifest cs ?a ?o (files w)"
    unfolding expected_manifest_def using disc by simp
  have el: "expected_lines cs ?a (files w1) = expected_lines cs ?a (files w)"
    unfolding expected_lines_def using disc by simp
  have A: "self' = self\<lparr>manifest := manifest self @ expected_manifest (c0 # cs) ?a ?o (files w)\<rparr>"
    using s1 s2 em c0 by (simp add: expected_manifest_def)
  have B: "stdout w' = stdout w @ expected_lines (c0 # cs) ?a (files w)"
    using l1 l2 el c0 by (simp add: expected_lines_def)
  have "preserved ?Q (files w) (files w1)"
    using p1 by (rule preserved_mono) (use c0 in auto)
  moreover have "preserved ?Q (files w1) (files w')"
    using p2 by (rule preserved_mono) auto
  ultimately have C: "preserved ?Q (files w) (files w')" by (rule preserved_trans)
  have notR: "\<not> ?R (?o @ sub # r)" for r
    using fresh by auto
  have outside1: "\<not> prefix (?o @ [sub]) (?a @ r)" for r
    using sep by (rule separate_outside)
  have D0: "\<exists>c. stat (files w) f = Some (File c) \<and>
               stat (files w') (copy_target (files w) f (?o @ [sub, name f])) = Some (File c) \<and>
               copy_target (files w') f (?o @ [sub, name f]) =
               copy_target (files w) f (?o @ [sub, name f])"
    if f: "f \<in> set (discover sub exts ?a (files w))" for f
  proof -
    let ?g = "copy_target (files w) f (?o @ [sub, name f])"
    from c1 f obtain c where a: "stat (files w) f = Some (File c)" and
      b: "stat (files w1) ?g = Some (File c)" and
      b': "copy_target (files w1) f (?o @ [sub, name f]) = ?g" by blast
    have "\<not> ?R (?o @ sub # [name f])" by (rule notR)
    with p2 have "stat (files w') (?o @ sub # [name f]) = stat (files w1) (?o @ sub # [name f])"
      by (rule preserved_stat)
    then have "copy_target (files w') f (?o @ [sub, name f]) =
               copy_target (files w1) f (?o @ [sub, name f])"
      by (simp add: copy_target_def is_dir_def)
    with b' have b'': "copy_target (files w') f (?o @ [sub, name f]) = ?g" by simp
    have "?g = ?o @ sub # [name f] \<or> ?g = ?o @ sub # [name f, name f]"
      by (simp add: copy_target_def)
    then have "\<not> ?R ?g" using notR by metis
    with p2 have "stat (files w') ?g = stat (files w1) ?g" by (rule preserved_stat)
    with a b b'' show ?thesis by simp
  qed
  have E0: "is_dir (files w') (?o @ [sub])" if "path_exists (files w) (?a @ [sub])"
  proof -
    from that d1 have "is_dir (files w1) (?o @ [sub])" by simp
    moreover have "\<not> ?R (?o @ [sub])" using notR[of "[]"] by simp
    with p2 have "stat (files w') (?o @ [sub]) = stat (files w1) (?o @ [sub])"
      by (rule preserved_stat)
    ultimately show ?thesis by (simp add: is_dir_def)
  qed
  have D1: "\<exists>c. stat (files w) f = Some (File c) \<and>
               stat (files w') (copy_target (files w) f (?o @ [sub', name f])) = Some (File c) \<and>
               copy_target (files w') f (?o @ [sub', name f]) =
               copy_target (files w) f (?o @ [sub', name f])"
    if c: "(sub', kind', exts') \<in> set cs" and f: "f \<in> set (discover sub' exts' ?a (files w))"
    for sub' kind' exts' f
  proof -
    from f disc have "f \<in> set (discover sub' exts' ?a (files w1))" by simp
    with c2 c obtain c' where a: "stat (files w1) f = Some (File c')" and
      b: "stat (files w') (copy_target (files w1) f (?o @ [sub', name f])) = Some (File c')" and
      b': "copy_target (files w') f (?o @ [sub', name f]) =
           copy_target (files w1) f (?o @ [sub', name f])"
      by blast
    from f have "f = ?a @ [sub', name f]"
      using glob_star_child by (fastforce simp: discover_def)
    then have "\<not> prefix (?o @ [sub]) f" using outside1 by metis
    with p1 have e1: "stat (files w1) f = stat (files w) f" by (rule preserved_stat)
    from fresh[OF c] have "sub' \<noteq> sub" by simp
    then have "\<not> prefix (?o @ [sub]) (?o @ [sub', name f])" by simp
    with p1 have "stat (files w1) (?o @ [sub', name f]) = stat (files w) (?o @ [sub', name f])"
      by (rule preserved_stat)
    then have "copy_target (files w1) f (?o @ [sub', name f]) =
               copy_target (files w) f (?o @ [sub', name f])"
      by (simp add: copy_target_def is_dir_def)
    with a b b' e1 show ?thesis by simp
  qed
  have E1: "is_dir (files w') (?o @ [sub'])"
    if c: "(sub', kind', exts') \<in> set cs" and ex: "path_exists (files w) (?a @ [sub'])"
    for sub' kind' exts'
  proof -
    have "stat (files w1) (?a @ [sub']) = stat (files w) (?a @ [sub'])"
      using p1 outside1 by (rule preserved_stat)
    with ex have "path_exists (files w1) (?a @ [sub'])" by (simp add: path_exists_def)
    with c2 c show ?thesis by blast
  qed
  from A B C D0 E0 D1 E1 c0 show ?case by auto
qed

lemma process_all_assets_steps:
  assumes "process_all_assets self w = Inr (True, self', w')"
  shows "path_exists (files w) (assets_dir self) \<and>
         (\<exists>t w4 w5.
            mkdir_exist_ok (files w) (output_dir self) = Inr t \<and>
            process_categories categories self
              ((print ''Starting asset processing...'' w)\<lparr>files := t\<rparr>) = Inr (self', w4) \<and>
            generate_manifest self' w4 = Inr w5 \<and>
            w' = print ''Asset processing complete!'' w5)"
proof -
  let ?w0 = "print ''Starting asset processing...'' w"
  from assms have ex: "path_exists (files w) (assets_dir self)"
    by (auto simp: process_all_assets_def Let_def print_def split: if_splits)
  with assms obtain t s1 w1 s2 w2 s3 w3 w4 w5 where
    mk: "mkdir_exist_ok (files w) (output_dir self) = Inr t" and
    p1: "process_textures self (?w0\<lparr>files := t\<rparr>) = Inr (s1, w1)" and
    p2: "process_models s1 w1 = Inr (s2, w2)" and
    p3: "process_audio s2 w2 = Inr (s3, w3)" and
    p4: "process_shaders s3 w3 = Inr (self', w4)" and
    gm: "generate_manifest self' w4 = Inr w5" and
    w': "w' = print ''Asset processing complete!'' w5"
    by (auto simp: process_all_assets_def Let_def print_def split: sum.splits prod.splits)
  have "process_categories categories self (?w0\<lparr>files := t\<rparr>) = Inr (self', w4)"
    using p1 p2 p3 p4
    by (simp add: categories_def process_textures_def process_models_def process_audio_def
                  process_shaders_def)
  with ex mk gm w' show ?thesis by blast
qed

lemma generate_manifest_Inr:
  assumes "generate_manifest self w = Inr w'"
  shows "files w' = AList.update (manifest_file self)
                      (File (JsonText (manifest_json (manifest self)))) (files w) \<and>
         stdout w' = stdout w @ [''Generated manifest: '' @ str_path (manifest_file self)] \<and>
         stat (files w') (manifest_file self) =
           Some (File (JsonText (manifest_json (manifest self))))"
proof -
  from assms obtain t where o: "open_w (files w) (manifest_file self) = Inr t" and
    w': "w' = print (''Generated manifest: '' @ str_path (manifest_file self))
                (w\<lparr>files := write_all t (manifest_file self)
                               (JsonText (manifest_json (manifest self)))\<rparr>)"
    by (auto simp: generate_manifest_def split: sum.splits)
  from open_w_Inr[OF o] have t: "t = AList.update (manifest_file self) (File (Bytes [])) (files w)"
    by simp
  have f: "files w' = AList.update (manifest_file self)
                      (File (JsonText (manifest_json (manifest self)))) (files w)"
    unfolding w' t by (simp add: print_def write_all_def)
  moreover have "stdout w' = stdout w @ [''Generated manifest: '' @ str_path (manifest_file self)]"
    unfolding w' by (simp add: print_def)
  moreover have "stat (files w') (manifest_file self) =
           Some (File (JsonText (manifest_json (manifest self))))"
    unfolding f by (simp add: stat_update manifest_file_def)
  ultimately show ?thesis by blast
qed

lemma categories_subs:
  "(sub, kind, exts) \<in> set categories \<Longrightarrow> sub \<noteq> ''asset_manifest.json''"
  by (auto simp: categories_def)

lemma categories_distinct: "distinct (map fst categories)"
  by (simp add: categories_def)

lemma run_summary:
  assumes run: "process_all_assets self w = Inr (True, self', w')"
      and sep: "separate (assets_dir self) (output_dir self)"
  shows "path_exists (files w) (assets_dir self) \<and>
         self' = self\<lparr>manifest := manifest self @
            expected_manifest categories (assets_dir self) (output_dir self) (files w)\<rparr> \<and>
         stdout w' = stdout w @ run_lines (assets_dir self) (output_dir self) (files w) \<and>
         preserved (prefix (output_dir self)) (files w) (files w') \<and>
         is_dir (files w') (output_dir self) \<and>
         stat (files w') (manifest_file self) =
           Some (File (JsonText (manifest_json (manifest self')))) \<and>
         (\<forall>(sub, kind, exts) \<in> set categories.
            (\<forall>f \<in> set (discover sub exts (assets_dir self) (files w)).
               \<exists>c. stat (files w) f = Some (File c) \<and>
                   stat (files w') (copy_target (files w) f (output_dir self @ [sub, name f])) =
                     Some (File c) \<and>
                   copy_target (files w') f (output_dir self @ [sub, name f]) =
                   copy_target (files w) f (output_dir self @ [sub, name f])) \<and>
            (path_exists (files w) (assets_dir self @ [sub]) \<longrightarrow>
               is_dir (files w') (output_dir self @ [sub])))"
proof -
  let ?a = "assets_dir self" and ?o = "output_dir self"
  let ?mf = "?o @ [''asset_manifest.json'']"
  let ?w0 = "print ''Starting asset processing...'' w"
  from process_all_assets_steps[OF run] obtain t w4 w5 where
    ex: "path_exists (files w) ?a" and
    mk: "mkdir_exist_ok (files w) ?o = Inr t" and
    pc: "process_categories categories self (?w0\<lparr>files := t\<rparr>) = Inr (self', w4)" and
    gm: "generate_manifest self' w4 = Inr w5" and
    w': "w' = print ''Asset processing complete!'' w5" by blast
  let ?w1 = "?w0\<lparr>files := t\<rparr>"
  have f1: "files ?w1 = t" and l1: "stdout ?w1 = stdout w @ [''Starting asset processing...'']"
    by (simp_all add: print_def)
  from mkdir_exist_ok_Inr[OF mk] have dir_t: "is_dir t ?o" and
    pt: "preserved (\<lambda>q. q = ?o) (files w) t" by blast+
  from pt have pt': "preserved (prefix (?o @ [])) (files w) t"
    by (rule preserved_mono) simp
  have disc: "\<And>sub exts. discover sub exts ?a t = discover sub exts ?a (files w)"
    using sep pt' by (rule separate_discover)
  let ?Q = "\<lambda>q. \<exists>c \<in> set categories. prefix (?o @ [fst c]) q"
  from process_categories_Inr[OF pc sep categories_distinct] have
    s4: "self' = self\<lparr>manifest := manifest self @ expected_manifest categories ?a ?o t\<rparr>" and
    l4: "stdout w4 = stdout w @ [''Starting asset processing...''] @ expected_lines categories ?a t" and
    p4: "preserved ?Q t (files w4)" and
    c4: "\<forall>(sub, kind, exts) \<in> set categories.
            (\<forall>f \<in> set (discover sub exts ?a t).
               \<exists>c. stat t f = Some (File c) \<and>
                   stat (files w4) (copy_target t f (?o @ [sub, name f])) = Some (File c) \<and>
                   copy_target (files w4) f (?o @ [sub, name f]) =
                   copy_target t f (?o @ [sub, name f])) \<and>
            (path_exists t (?a @ [sub]) \<longrightarrow> is_dir (files w4) (?o @ [sub]))"
    unfolding f1 l1 by auto
  from s4 have mfs: "manifest_file self' = ?mf" by (simp add: manifest_file_def)
  from generate_manifest_Inr[OF gm] have
    f5: "files w5 = AList.update ?mf (File (JsonText (manifest_json (manifest self')))) (files w4)" and
    l5: "stdout w5 = stdout w4 @ [''Generated manifest: '' @ str_path ?mf]" and
    m5: "stat (files w5) ?mf = Some (File (JsonText (manifest_json (manifest self'))))"
    unfolding mfs by blast+
  have fw': "files w' = files w5" and lw': "stdout w' = stdout w5 @ [''Asset processing complete!'']"
    unfolding w' by (simp_all add: print_def)
  have st5: "\<And>q. q \<noteq> ?mf \<Longrightarrow> stat (files w') q = stat (files w4) q"
    unfolding fw' f5 by (simp add: stat_update)
  have p5: "preserved (\<lambda>q. q = ?mf) (files w4) (files w')"
    unfolding fw' f5 by (rule preserved_update) simp
  have em: "expected_manifest categories ?a ?o t = expected_manifest categories ?a ?o (files w)"
    unfolding expected_manifest_def using disc by simp
  have el: "expected_lines categories ?a t = expected_lines categories ?a (files w)"
    unfolding expected_lines_def using disc by simp
  have R2: "self' = self\<lparr>manifest := manifest self @ expected_manifest categories ?a ?o (files w)\<rparr>"
    using s4 em by simp
  have R3: "stdout w' = stdout w @ run_lines ?a ?o (files w)"
    using lw' l5 l4 el by (simp add: run_lines_def)
  have "preserved (prefix ?o) (files w) t" using pt by (rule preserved_mono) simp
  moreover have "preserved (prefix ?o) t (files w4)"
    using p4 by (rule preserved_mono) (auto dest: append_prefixD)
  moreover have "preserved (prefix ?o) (files w4) (files w')" using p5 by (rule preserved_mono) simp
  ultimately have R4: "preserved (prefix ?o) (files w) (files w')"
    using preserved_trans by blast
  have "\<not> ?Q ?o" by simp
  with p4 have "stat (files w4) ?o = stat t ?o" by (rule preserved_stat)
  moreover have "stat (files w') ?o = stat (files w4) ?o" by (rule st5) simp
  ultimately have R5: "is_dir (files w') ?o" using dir_t by (simp add: is_dir_def)
  have R6: "stat (files w') (manifest_file self) =
           Some (File (JsonText (manifest_json (manifest self'))))"
    using m5 fw' by (simp add: manifest_file_def)
  have outside: "\<not> prefix ?o (?a @ r)" for r
    using separate_outside[OF sep, of "[]" r] by simp
  have st_t: "stat t q = stat (files w) q" if "q \<noteq> ?o" for q
    using pt that by (rule preserved_stat)
  have R7a: "\<exists>c. stat (files w) f = Some (File c) \<and>
                   stat (files w') (copy_target (files w) f (?o @ [sub, name f])) = Some (File c) \<and>
                   copy_target (files w') f (?o @ [sub, name f]) =
                   copy_target (files w) f (?o @ [sub, name f])"
    if c: "(sub, kind, exts) \<in> set categories" and f: "f \<in> set (discover sub exts ?a (files w))"
    for sub kind exts f
  proof -
    from f disc have "f \<in> set (discover sub exts ?a t)" by simp
    with c4 c obtain c' where a: "stat t f = Some (File c')" and
      b: "stat (files w4) (copy_target t f (?o @ [sub, name f])) = Some (File c')" and
      b': "copy_target (files w4) f (?o @ [sub, name f]) = copy_target t f (?o @ [sub, name f])"
      by blast
    let ?dst = "?o @ [sub, name f]"
    from f have "f = ?a @ [sub, name f]"
      using glob_star_child by (fastforce simp: discover_def)
    then have "f \<noteq> ?o" using outside[of "[sub, name f]"] by auto
    then have e1: "stat t f = stat (files w) f" by (rule st_t)
    have "stat t ?dst = stat (files w) ?dst" by (rule st_t) simp
    then have e2: "copy_target t f ?dst = copy_target (files w) f ?dst"
      by (simp add: copy_target_def is_dir_def)
    have "copy_target (files w) f ?dst \<noteq> ?mf" by (simp add: copy_target_def)
    then have e3: "stat (files w') (copy_target (files w) f ?dst) =
                   stat (files w4) (copy_target (files w) f ?dst)" by (rule st5)
    have "stat (files w') ?dst = stat (files w4) ?dst" by (rule st5) simp
    then have e4: "copy_target (files w') f ?dst = copy_target (files w4) f ?dst"
      by (simp add: copy_target_def is_dir_def)
    from a e1 have "stat (files w) f = Some (File c')" by simp
    moreover from b e2 e3 have "stat (files w') (copy_target (files w) f ?dst) = Some (File c')"
      by simp
    moreover from b' e2 e4 have "copy_target (files w') f ?dst = copy_target (files w) f ?dst"
      by simp
    ultimately show ?thesis by blast
  qed
  have R7b: "is_dir (files w') (?o @ [sub])"
    if c: "(sub, kind, exts) \<in> set categories" and e: "path_exists (files w) (?a @ [sub])"
    for sub kind exts
  proof -
    have "?a @ [sub] \<noteq> ?o" using outside[of "[sub]"] by auto
    then have "stat t (?a @ [sub]) = stat (files w) (?a @ [sub])" by (rule st_t)
    with e have "path_exists t (?a @ [sub])" by (simp add: path_exists_def)
    with c4 c have "is_dir (files w4) (?o @ [sub])" by blast
    moreover have "?o @ [sub] \<noteq> ?mf" using categories_subs[OF c] by simp
    then have "stat (files w') (?o @ [sub]) = stat (files w4) (?o @ [sub])" by (rule st5)
    ultimately show ?thesis by (simp add: is_dir_def)
  qed
  from ex R2 R3 R4 R5 R6 R7a R7b show ?thesis by blast
qed

section \<open>The end-to-end scenario and the exit status\<close>

text \<open>
  Claim C2, as the code has it. With \<^verbatim>\<open>assets/textures/a.png\<close> and
  \<^verbatim>\<open>assets/shaders/b.frag\<close> and nothing else, whatever the two files hold, one run
  with output directory \<^verbatim>\<open>output\<close> returns \<^verbatim>\<open>True\<close> and leaves verbatim copies
  \<^verbatim>\<open>output/textures/a.png\<close> and \<^verbatim>\<open>output/shaders/b.frag\<close>, and a manifest of
  exactly two entries; the script itself exits with status 0 on this project.
\<close>

theorem end_to_end_copies:
  "process_all_assets (AssetProcessor_init [''assets''] [''output'']) (end_to_end_project png frag) =
     Inr (True,
          \<lparr>assets_dir = [''assets''], output_dir = [''output''], manifest = end_to_end_manifest\<rparr>,
          end_to_end_result png frag) \<and>
   length end_to_end_manifest = 2 \<and>
   exit_status (main (end_to_end_project png frag)) = 0"
  unfolding end_to_end_project_def end_to_end_result_def end_to_end_manifest_def
  by code_simp

text \<open>
  The shader is copied, not compiled: after the run there is no
  \<^verbatim>\<open>output/shaders/b.spv\<close>. The shader script does not make one either: it looks for
  \<^verbatim>\<open>.hlsl\<close> and \<^verbatim>\<open>.glsl\<close> files only, finds none, and writes no file.
\<close>

theorem end_to_end_no_spv:
  "process_all_assets (AssetProcessor_init [''assets''] [''output''])
     (end_to_end_project (Bytes ''PNG'') (Bytes ''void main() {}'')) =
     Inr (True,
          \<lparr>assets_dir = [''assets''], output_dir = [''output''], manifest = end_to_end_manifest\<rparr>,
          end_to_end_result (Bytes ''PNG'') (Bytes ''void main() {}'')) \<and>
   stat (files (end_to_end_result (Bytes ''PNG'') (Bytes ''void main() {}'')))
     [''output'', ''shaders'', ''b.spv''] = None \<and>
   shader_main (Namespace [''assets'', ''shaders''] [''output'', ''shaders''])
     (end_to_end_project (Bytes ''PNG'') (Bytes ''void main() {}'')) =
     Inr (0, \<lparr>files = files (end_to_end_project (Bytes ''PNG'') (Bytes ''void main() {}'')) @
                      [([''output''], Dir), ([''output'', ''shaders''], Dir)],
              stdout = [''Successfully compiled 0 shaders'']\<rparr>)"
  unfolding end_to_end_project_def end_to_end_result_def end_to_end_manifest_def
  by code_simp

lemma compile_loop_falls_through:
  "compile_loop i out fl w = Inr (r, w') \<Longrightarrow> r = None"
  by (induction fl arbitrary: w)
     (auto simp: compile_shader_def split: sum.splits prod.splits if_splits)

text \<open>
  Claim C3, as the code has it. The asset script exits with 0 exactly when
  \<^verbatim>\<open>process_all_assets\<close> returns \<^verbatim>\<open>True\<close>, and with 1 otherwise: when the assets
  directory does not exist (a message, then \<^verbatim>\<open>sys.exit(1)\<close>) and after an uncaught
  exception. The shader script ends with 2 when its argument parser rejects the command
  line and with 0 after the help text; with the arguments accepted it ends with 0 when
  the input directory exists and the output directory can be created, and with 1
  otherwise, in particular when the input directory does not exist (a message, then
  \<^verbatim>\<open>return 1\<close>).
\<close>

theorem exit_codes:
  "exit_status (main w) =
     (if \<exists>self' w'. process_all_assets
                       (AssetProcessor_init [''assets''] [''processed_assets'']) w =
                     Inr (True, self', w')
      then 0 else 1) \<and>
   (\<not> path_exists (files w) [''assets''] \<longrightarrow>
      main w = Inr (1, print (''Assets directory '' @ [CHR 0x27] @ ''assets'' @ [CHR 0x27] @
                              '' not found!'')
                         (print ''Starting asset processing...'' w))) \<and>
   exit_status (shader_main args w) =
     (case args of
        Rejected \<Rightarrow> 2
      | Help help_text \<Rightarrow> 0
      | Namespace input_dir out_dir \<Rightarrow>
          if path_exists (files w) input_dir \<and> (\<exists>t. mkdir_parents (files w) out_dir = Inr t)
          then 0 else 1) \<and>
   (\<not> path_exists (files w) input_dir \<longrightarrow>
      shader_main (Namespace input_dir out_dir) w =
        Inr (1, print (''Error: Input directory '' @ str_path input_dir @ '' does not exist'') w))"
proof -
  let ?p = "AssetProcessor_init [''assets''] [''processed_assets'']"
  have m: "exit_status (main w) =
     (if \<exists>self' w'. process_all_assets ?p w = Inr (True, self', w') then 0 else 1)"
  proof (cases "process_all_assets ?p w")
    case (Inl a)
    then show ?thesis by (simp add: main_def exit_status_def)
  next
    case (Inr r)
    then obtain ok self' w' where "process_all_assets ?p w = Inr (ok, self', w')"
      by (cases r) auto
    then show ?thesis by (cases ok) (simp_all add: main_def exit_status_def)
  qed
  have a: "\<not> path_exists (files w) [''assets''] \<longrightarrow>
      main w = Inr (1, print (''Assets directory '' @ [CHR 0x27] @ ''assets'' @ [CHR 0x27] @
                              '' not found!'')
                         (print ''Starting asset processing...'' w))"
    by (simp add: main_def process_all_assets_def AssetProcessor_init_def Let_def print_def)
  have n: "exit_status (shader_main (Namespace i out) w) =
     (if path_exists (files w) i \<and> (\<exists>t. mkdir_parents (files w) out = Inr t)
      then 0 else 1)" for i out
  proof (cases "path_exists (files w) i")
    case False
    then show ?thesis by (simp add: shader_main_def exit_status_def)
  next
    case True
    show ?thesis
    proof (cases "mkdir_parents (files w) out")
      case (Inl e)
      with True show ?thesis by (simp add: shader_main_def exit_status_def)
    next
      case (Inr t)
      let ?fl = "rglob t i ''.hlsl'' @ rglob t i ''.glsl''"
      show ?thesis
      proof (cases "compile_loop i out ?fl (w\<lparr>files := t\<rparr>)")
        case (Inl e)
        have "\<forall>f \<in> set ?fl. prefix i f \<and> drop (length i) f \<noteq> [] \<and> last f \<noteq> []"
          using rglob_member by fastforce
        from compile_loop_ok[OF this, of out "w\<lparr>files := t\<rparr>"] Inl show ?thesis by auto
      next
        case (Inr r)
        then obtain w1 where "compile_loop i out ?fl (w\<lparr>files := t\<rparr>) = Inr (None, w1)"
          using compile_loop_falls_through by (cases r) auto
        with True \<open>mkdir_parents (files w) out = Inr t\<close> show ?thesis
          by (simp add: shader_main_def exit_status_def)
      qed
    qed
  qed
  have s: "exit_status (shader_main args w) =
     (case args of
        Rejected \<Rightarrow> 2
      | Help help_text \<Rightarrow> 0
      | Namespace input_dir out_dir \<Rightarrow>
          if path_exists (files w) input_dir \<and> (\<exists>t. mkdir_parents (files w) out_dir = Inr t)
          then 0 else 1)"
  proof (cases args)
    case (Namespace i out)
    with n[of i out] show ?thesis by simp
  next
    case Rejected
    then show ?thesis by (simp add: shader_main_def exit_status_def)
  next
    case (Help help_text)
    then show ?thesis by (simp add: shader_main_def exit_status_def)
  qed
  have b: "\<not> path_exists (files w) input_dir \<longrightarrow>
      shader_main (Namespace input_dir out_dir) w =
        Inr (1, print (''Error: Input directory '' @ str_path input_dir @ '' does not exist'') w)"
    by (simp add: shader_main_def)
  from m a s b show ?thesis by blast
qed

theorem exit_codes_witness:
  "\<not> path_exists (files empty_project) [''assets''] \<and>
   main empty_project =
     Inr (1, \<lparr>files = [],
              stdout = [''Starting asset processing...'',
                        ''Assets directory '' @ [CHR 0x27] @ ''assets'' @ [CHR 0x27] @
                        '' not found!'']\<rparr>) \<and>
   \<not> path_exists (files empty_project) [''shaders''] \<and>
   shader_main (Namespace [''shaders''] [''build'']) empty_project =
     Inr (1, \<lparr>files = [], stdout = [''Error: Input directory shaders does not exist'']\<rparr>) \<and>
   exit_status (shader_main Rejected empty_project) = 2"
proof -
  have h: "\<not> path_exists (files empty_project) [''assets'']"
          "\<not> path_exists (files empty_project) [''shaders'']"
    by (simp_all add: empty_project_def path_exists_def stat_def)
  from exit_codes[of empty_project "Namespace [''shaders''] [''build'']" "[''shaders'']" "[''build'']"] h
  have "main empty_project =
          Inr (1, print (''Assets directory '' @ [CHR 0x27] @ ''assets'' @ [CHR 0x27] @
                              '' not found!'')
                         (print ''Starting asset processing...'' empty_project))"
       "shader_main (Namespace [''shaders''] [''build'']) empty_project =
          Inr (1, print (''Error: Input directory '' @ str_path [''shaders''] @
                         '' does not exist'') empty_project)"
    by blast+
  moreover from exit_codes[of empty_project Rejected]
  have "exit_status (shader_main Rejected empty_project) = 2" by simp
  ultimately show ?thesis using h by (simp add: print_def empty_project_def)
qed

text \<open>
  A missing assets directory, or a missing input directory of the shader script, ends
  the run with status 1, not 2.
\<close>

theorem missing_directory_exits_1:
  "\<not> path_exists (files empty_project) [''assets''] \<and>
   exit_status (main empty_project) = 1 \<and>
   \<not> path_exists (files empty_project) [''shaders''] \<and>
   exit_status (shader_main (Namespace [''shaders''] [''build'']) empty_project) = 1"
  unfolding empty_project_def by code_simp

section \<open>Running the asset script twice\<close>

lemma separate_expected:
  assumes "separate a out" and "preserved (prefix out) t t'"
  shows "expected_manifest cs a out t' = expected_manifest cs a out t \<and>
         expected_lines cs a t' = expected_lines cs a t"
proof -
  from assms(2) have "preserved (prefix (out @ [])) t t'" by simp
  with assms(1) have "\<And>sub exts. discover sub exts a t' = discover sub exts a t"
    by (rule separate_discover)
  then show ?thesis by (simp add: expected_manifest_def expected_lines_def)
qed

lemma process_all_assets_found:
  assumes "process_all_assets self w = Inr (ok, self', w')"
      and "path_exists (files w) (assets_dir self)"
  shows "ok"
proof -
  let ?w0 = "print ''Starting asset processing...'' w"
  have f0: "files ?w0 = files w" by (simp add: print_def)
  from assms(2) have ex: "path_exists (files ?w0) (assets_dir self)" by (simp add: f0)
  show ?thesis
  proof (cases "mkdir_exist_ok (files ?w0) (output_dir self)")
    case (Inl e)
    with assms(1) ex show ?thesis by (simp add: process_all_assets_def Let_def)
  next
    case (Inr t)
    with assms(1) ex show ?thesis
      by (auto simp: process_all_assets_def Let_def split: sum.splits prod.splits)
  qed
qed

text \<open>
  Claim C4, as the code has it. The script keeps no record of what it has built and reads
  no manifest, so a second run skips nothing. Let a run complete, with the assets and
  output directories neither inside the other, and let a second run, with a processor in
  the same initial state, start on the tree that the first one left. The second run
  selects the same files in every category. If it returns, it returns \<^verbatim>\<open>True\<close>, it
  has printed the same lines as the first (a \<^verbatim>\<open>Processing\<close> line for every asset
  again) and built the same manifest, and the destination of every copy and the manifest
  file hold what they held after the first run. That the second run returns is not
  stated: it copies onto the copies of the first run, and \<^verbatim>\<open>shutil.copy2\<close> has given
  each of them the permission bits of its source.
\<close>

theorem second_run_repeats_first:
  assumes run: "process_all_assets self w = Inr (True, s1, w1)"
      and sep: "separate (assets_dir self) (output_dir self)"
      and same: "files v = files w1"
      and again: "process_all_assets self v = Inr (ok, s2, w2)"
  shows "ok \<and>
         manifest s2 = manifest s1 \<and>
         stdout w1 = stdout w @ run_lines (assets_dir self) (output_dir self) (files w) \<and>
         stdout w2 = stdout v @ run_lines (assets_dir self) (output_dir self) (files w) \<and>
         (\<forall>(sub, kind, exts) \<in> set categories.
            discover sub exts (assets_dir self) (files v) =
            discover sub exts (assets_dir self) (files w) \<and>
            (\<forall>f \<in> set (discover sub exts (assets_dir self) (files w)).
               \<exists>c. stat (files w) f = Some (File c) \<and>
                   stat (files w1) (copy_target (files w) f (output_dir self @ [sub, name f])) =
                     Some (File c) \<and>
                   stat (files w2) (copy_target (files w) f (output_dir self @ [sub, name f])) =
                     Some (File c))) \<and>
         stat (files w2) (manifest_file self) = stat (files w1) (manifest_file self)"
proof -
  let ?a = "assets_dir self" and ?o = "output_dir self"
  let ?T = "files w1"
  from run_summary[OF run sep] have
    ex: "path_exists (files w) ?a" and
    s1: "s1 = self\<lparr>manifest := manifest self @ expected_manifest categories ?a ?o (files w)\<rparr>" and
    l1: "stdout w1 = stdout w @ run_lines ?a ?o (files w)" and
    pr: "preserved (prefix ?o) (files w) ?T" and
    mf: "stat ?T (manifest_file self) = Some (File (JsonText (manifest_json (manifest s1))))" and
    cats: "\<forall>(sub, kind, exts) \<in> set categories.
            (\<forall>f \<in> set (discover sub exts ?a (files w)).
               \<exists>c. stat (files w) f = Some (File c) \<and>
                   stat ?T (copy_target (files w) f (?o @ [sub, name f])) = Some (File c) \<and>
                   copy_target ?T f (?o @ [sub, name f]) =
                   copy_target (files w) f (?o @ [sub, name f])) \<and>
            (path_exists (files w) (?a @ [sub]) \<longrightarrow> is_dir ?T (?o @ [sub]))"
    by blast+
  have outside: "\<not> prefix ?o (?a @ r)" for r
    using separate_outside[OF sep, of "[]" r] by simp
  have st: "stat ?T (?a @ r) = stat (files w) (?a @ r)" for r
    using pr outside by (rule preserved_stat)
  from pr have pr0: "preserved (prefix (?o @ [])) (files w) ?T" by simp
  have disc: "\<And>sub exts. discover sub exts ?a ?T = discover sub exts ?a (files w)"
    using sep pr0 by (rule separate_discover)
  have ex': "path_exists (files v) ?a"
    using ex st[of "[]"] same by (simp add: path_exists_def)
  from process_all_assets_found[OF again ex'] have ok: ok .
  with again have run2: "process_all_assets self v = Inr (True, s2, w2)" by simp
  from run_summary[OF run2 sep] have
    s2: "s2 = self\<lparr>manifest := manifest self @ expected_manifest categories ?a ?o (files v)\<rparr>" and
    l2: "stdout w2 = stdout v @ run_lines ?a ?o (files v)" and
    mf2: "stat (files w2) (manifest_file self) =
            Some (File (JsonText (manifest_json (manifest s2))))" and
    cats2: "\<forall>(sub, kind, exts) \<in> set categories.
            (\<forall>f \<in> set (discover sub exts ?a (files v)).
               \<exists>c. stat (files v) f = Some (File c) \<and>
                   stat (files w2) (copy_target (files v) f (?o @ [sub, name f])) = Some (File c) \<and>
                   copy_target (files w2) f (?o @ [sub, name f]) =
                   copy_target (files v) f (?o @ [sub, name f])) \<and>
            (path_exists (files v) (?a @ [sub]) \<longrightarrow> is_dir (files w2) (?o @ [sub]))"
    by blast+
  from pr same have pr': "preserved (prefix ?o) (files w) (files v)" by simp
  from separate_expected[OF sep pr'] have
    em: "expected_manifest categories ?a ?o (files v) = expected_manifest categories ?a ?o (files w)" and
    el: "expected_lines categories ?a (files v) = expected_lines categories ?a (files w)" by blast+
  from s1 s2 em have ms: "manifest s2 = manifest s1" by simp
  from l2 el have l2': "stdout w2 = stdout v @ run_lines ?a ?o (files w)"
    by (simp add: run_lines_def)
  have C: "\<forall>(sub, kind, exts) \<in> set categories.
            discover sub exts ?a (files v) = discover sub exts ?a (files w) \<and>
            (\<forall>f \<in> set (discover sub exts ?a (files w)).
               \<exists>c. stat (files w) f = Some (File c) \<and>
                   stat ?T (copy_target (files w) f (?o @ [sub, name f])) = Some (File c) \<and>
                   stat (files w2) (copy_target (files w) f (?o @ [sub, name f])) = Some (File c))"
  proof (intro ballI, clarify, intro conjI ballI)
    fix sub kind exts
    assume c: "(sub, kind, exts) \<in> set categories"
    show "discover sub exts ?a (files v) = discover sub exts ?a (files w)"
      using disc same by simp
    fix f assume f: "f \<in> set (discover sub exts ?a (files w))"
    with cats c obtain c1 where
      a: "stat (files w) f = Some (File c1)" and
      b: "stat ?T (copy_target (files w) f (?o @ [sub, name f])) = Some (File c1)" and
      b': "copy_target ?T f (?o @ [sub, name f]) = copy_target (files w) f (?o @ [sub, name f])"
      by blast
    from f have fv: "f \<in> set (discover sub exts ?a (files v))" using disc same by simp
    with cats2 c obtain c2 where
      a2: "stat (files v) f = Some (File c2)" and
      b2: "stat (files w2) (copy_target (files v) f (?o @ [sub, name f])) = Some (File c2)"
      by blast
    from f have fa: "f = ?a @ [sub, name f]"
      using glob_star_child by (fastforce simp: discover_def)
    then have "stat ?T f = stat (files w) f" using st[of "[sub, name f]"] by simp
    with a a2 same have "c2 = c1" by simp
    with b2 b' same have
      "stat (files w2) (copy_target (files w) f (?o @ [sub, name f])) = Some (File c1)"
      by simp
    with a b show "\<exists>c. stat (files w) f = Some (File c) \<and>
                   stat ?T (copy_target (files w) f (?o @ [sub, name f])) = Some (File c) \<and>
                   stat (files w2) (copy_target (files w) f (?o @ [sub, name f])) = Some (File c)"
      by blast
  qed
  from mf mf2 ms have M: "stat (files w2) (manifest_file self) = stat ?T (manifest_file self)"
    by simp
  from ok ms l1 l2' C M show ?thesis by blast
qed

theorem second_run_repeats_first_witness:
  "process_all_assets (AssetProcessor_init [''assets''] [''output''])
     (end_to_end_project (Bytes ''PNG'') (Bytes ''void main() {}'')) =
     Inr (True,
          \<lparr>assets_dir = [''assets''], output_dir = [''output''], manifest = end_to_end_manifest\<rparr>,
          end_to_end_result (Bytes ''PNG'') (Bytes ''void main() {}'')) \<and>
   separate [''assets''] [''output''] \<and>
   process_all_assets (AssetProcessor_init [''assets''] [''output''])
     (end_to_end_result (Bytes ''PNG'') (Bytes ''void main() {}'')) =
     Inr (True,
          \<lparr>assets_dir = [''assets''], output_dir = [''output''], manifest = end_to_end_manifest\<rparr>,
          (end_to_end_result (Bytes ''PNG'') (Bytes ''void main() {}''))
            \<lparr>stdout := stdout (end_to_end_result (Bytes ''PNG'') (Bytes ''void main() {}'')) @
                        stdout (end_to_end_result (Bytes ''PNG'') (Bytes ''void main() {}''))\<rparr>) \<and>
   stdout (end_to_end_result (Bytes ''PNG'') (Bytes ''void main() {}'')) =
     run_lines [''assets''] [''output'']
       (files (end_to_end_project (Bytes ''PNG'') (Bytes ''void main() {}'')))"
proof -
  let ?p = "AssetProcessor_init [''assets''] [''output'']"
  let ?w = "end_to_end_project (Bytes ''PNG'') (Bytes ''void main() {}'')"
  let ?w1 = "end_to_end_result (Bytes ''PNG'') (Bytes ''void main() {}'')"
  let ?s1 = "\<lparr>assets_dir = [''assets''], output_dir = [''output''],
              manifest = end_to_end_manifest\<rparr>"
  let ?w2 = "?w1\<lparr>stdout := stdout ?w1 @ stdout ?w1\<rparr>"
  have run: "process_all_assets ?p ?w = Inr (True, ?s1, ?w1)"
    unfolding end_to_end_project_def end_to_end_result_def end_to_end_manifest_def
    by code_simp
  have again: "process_all_assets ?p ?w1 = Inr (True, ?s1, ?w2)"
    unfolding end_to_end_project_def end_to_end_result_def end_to_end_manifest_def
    by code_simp
  have sep: "separate (assets_dir ?p) (output_dir ?p)"
    by (simp add: separate_def AssetProcessor_init_def)
  have sep': "separate [''assets''] [''output'']"
    by (simp add: separate_def)
  have a: "assets_dir ?p = [''assets'']" and o: "output_dir ?p = [''output'']"
    by (simp_all add: AssetProcessor_init_def)
  have e: "stdout ?w = []" by (simp add: end_to_end_project_def)
  from second_run_repeats_first[OF run sep refl again]
  have "stdout ?w1 = stdout ?w @ run_lines (assets_dir ?p) (output_dir ?p) (files ?w)"
    by blast
  then have l: "stdout ?w1 = run_lines [''assets''] [''output''] (files ?w)"
    unfolding a o e by simp
  show ?thesis
    by (intro conjI) (rule run sep' again l)+
qed

text \<open>
  On the end-to-end project the second run processes both assets again: two
  \<^verbatim>\<open>Processing\<close> lines and two manifest entries, not zero.
\<close>

theorem second_run_rebuilds_all:
  "process_all_assets (AssetProcessor_init [''assets''] [''output''])
     (end_to_end_project (Bytes ''PNG'') (Bytes ''void main() {}'')) =
     Inr (True,
          \<lparr>assets_dir = [''assets''], output_dir = [''output''], manifest = end_to_end_manifest\<rparr>,
          end_to_end_result (Bytes ''PNG'') (Bytes ''void main() {}'')) \<and>
   process_all_assets (AssetProcessor_init [''assets''] [''output''])
     ((end_to_end_result (Bytes ''PNG'') (Bytes ''void main() {}''))\<lparr>stdout := []\<rparr>) =
     Inr (True,
          \<lparr>assets_dir = [''assets''], output_dir = [''output''], manifest = end_to_end_manifest\<rparr>,
          (end_to_end_result (Bytes ''PNG'') (Bytes ''void main() {}''))
            \<lparr>stdout := [''Starting asset processing...'',
                        ''Processing texture: a.png'',
                        ''Processing shader: b.frag'',
                        ''Generated manifest: output/asset_manifest.json'',
                        ''Asset processing complete!'']\<rparr>) \<and>
   length end_to_end_manifest = 2"
  unfolding end_to_end_project_def end_to_end_result_def end_to_end_manifest_def
  by code_simp

section \<open>The manifest file\<close>

text \<open>
  Claim C5, as the code has it. \<^verbatim>\<open>generate_manifest\<close> writes the destination in place.
  It succeeds whenever the output directory is a directory and the manifest path is not
  one. When it succeeds, the save goes through three states of the tree: the one before,
  one in which the manifest path holds an empty file (after \<^verbatim>\<open>open(.., 'w')\<close>), and
  the final one, in which it holds the complete new manifest. No other path changes at
  any point: there is no temporary file and no rename.
\<close>

theorem manifest_saved_in_place:
  "(is_dir (files w) (output_dir self) \<and> \<not> is_dir (files w) (manifest_file self) \<longrightarrow>
      (\<exists>w'. generate_manifest self w = Inr w')) \<and>
   (generate_manifest self w = Inr w' \<longrightarrow>
      generate_manifest_trace self w =
        [files w, AList.update (manifest_file self) (File (Bytes [])) (files w), files w'] \<and>
      stat (AList.update (manifest_file self) (File (Bytes [])) (files w)) (manifest_file self) =
        Some (File (Bytes [])) \<and>
      stat (files w') (manifest_file self) =
        Some (File (JsonText (manifest_json (manifest self)))) \<and>
      (\<forall>q. q \<noteq> manifest_file self \<longrightarrow>
         stat (AList.update (manifest_file self) (File (Bytes [])) (files w)) q = stat (files w) q \<and>
         stat (files w') q = stat (files w) q))"
proof (intro conjI impI)
  assume h: "is_dir (files w) (output_dir self) \<and> \<not> is_dir (files w) (manifest_file self)"
  then have "\<exists>t. open_w (files w) (manifest_file self) = Inr t"
    by (auto simp: open_w_def is_dir_def manifest_file_def split: option.splits node.splits)
  then show "\<exists>w'. generate_manifest self w = Inr w'"
    by (auto simp: generate_manifest_def)
next
  let ?mf = "manifest_file self"
  let ?t1 = "AList.update ?mf (File (Bytes [])) (files w)"
  assume g: "generate_manifest self w = Inr w'"
  then obtain t where o: "open_w (files w) ?mf = Inr t"
    by (auto simp: generate_manifest_def split: sum.splits)
  from open_w_Inr[OF o] have t: "t = ?t1" and ne: "?mf \<noteq> []" by simp_all
  from generate_manifest_Inr[OF g] have
    f: "files w' = AList.update ?mf (File (JsonText (manifest_json (manifest self)))) (files w)" and
    m: "stat (files w') ?mf = Some (File (JsonText (manifest_json (manifest self))))" by blast+
  have "write_all ?t1 ?mf (JsonText (manifest_json (manifest self))) = files w'"
    unfolding f by (simp add: write_all_def)
  with o t show "generate_manifest_trace self w = [files w, ?t1, files w']"
    by (simp add: generate_manifest_trace_def)
  show "stat ?t1 ?mf = Some (File (Bytes []))" using ne by (simp add: stat_update)
  show "stat (files w') ?mf = Some (File (JsonText (manifest_json (manifest self))))" by (rule m)
  show "\<forall>q. q \<noteq> ?mf \<longrightarrow> stat ?t1 q = stat (files w) q \<and> stat (files w') q = stat (files w) q"
    unfolding f using ne by (simp add: stat_update)
qed

theorem manifest_saved_in_place_witness:
  "is_dir (files saved_before) (output_dir saving_processor) \<and>
   \<not> is_dir (files saved_before) (manifest_file saving_processor) \<and>
   (\<exists>w'. generate_manifest saving_processor saved_before = Inr w' \<and>
         generate_manifest_trace saving_processor saved_before =
           [files saved_before,
            [([''processed_assets''], Dir),
             ([''processed_assets'', ''asset_manifest.json''], File (Bytes []))],
            files w'] \<and>
         stat (files w') [''processed_assets'', ''asset_manifest.json''] =
           Some (File (JsonText (manifest_json (manifest saving_processor)))))"
proof -
  have h: "is_dir (files saved_before) (output_dir saving_processor) \<and>
           \<not> is_dir (files saved_before) (manifest_file saving_processor)"
    unfolding saved_before_def saving_processor_def by code_simp
  have e: "AList.update (manifest_file saving_processor) (File (Bytes [])) (files saved_before) =
           [([''processed_assets''], Dir),
            ([''processed_assets'', ''asset_manifest.json''], File (Bytes []))]"
          "manifest_file saving_processor = [''processed_assets'', ''asset_manifest.json'']"
    unfolding saved_before_def saving_processor_def by code_simp+
  from manifest_saved_in_place[of saved_before saving_processor] h
  obtain w' where g: "generate_manifest saving_processor saved_before = Inr w'" by blast
  from manifest_saved_in_place[of saved_before saving_processor w'] g have
    "generate_manifest_trace saving_processor saved_before =
        [files saved_before,
         AList.update (manifest_file saving_processor) (File (Bytes [])) (files saved_before),
         files w']"
    "stat (files w') (manifest_file saving_processor) =
        Some (File (JsonText (manifest_json (manifest saving_processor))))" by blast+
  with e g h show ?thesis by auto
qed

text \<open>
  Saving over the manifest of an earlier run: in the middle state the destination holds
  an empty file, which is neither the previous manifest nor the new one.
\<close>

theorem manifest_truncated_during_save:
  "stat (files saved_before) (manifest_file saving_processor) =
     Some (File (JsonText (manifest_json []))) \<and>
   stat (generate_manifest_trace saving_processor saved_before ! 1)
        (manifest_file saving_processor) = Some (File (Bytes [])) \<and>
   \<not> intact_or_new saving_processor saved_before
        (generate_manifest_trace saving_processor saved_before ! 1) \<and>
   \<not> list_all (intact_or_new saving_processor saved_before)
        (generate_manifest_trace saving_processor saved_before)"
  unfolding saved_before_def saving_processor_def by code_simp

lemma process_category_dirs:
  assumes "process_category sub kind exts self w = Inr (self', w')"
  shows "assets_dir self' = assets_dir self \<and> output_dir self' = output_dir self"
proof (cases "path_exists (files w) (assets_dir self @ [sub])")
  case False
  with assms show ?thesis by (simp add: process_category_def)
next
  case True
  with assms obtain t where
    "process_files kind exts (output_dir self @ [sub]) (glob_star t (assets_dir self @ [sub]))
       self (w\<lparr>files := t\<rparr>) = Inr (self', w')"
    by (auto simp: process_category_def Let_def split: sum.splits)
  from process_files_Inr[OF this] show ?thesis by simp
qed

lemma process_categories_dirs:
  "process_categories cs self w = Inr (self', w') \<Longrightarrow>
   assets_dir self' = assets_dir self \<and> output_dir self' = output_dir self"
proof (induction cs arbitrary: self w)
  case Nil
  then show ?case by simp
next
  case (Cons c0 cs)
  obtain sub kind exts where c0: "c0 = (sub, kind, exts)" by (cases c0) auto
  from Cons.prems c0 obtain s1 w1 where
    cat: "process_category sub kind exts self w = Inr (s1, w1)" and
    rest: "process_categories cs s1 w1 = Inr (self', w')"
    by (auto split: sum.splits)
  from Cons.IH[OF rest] process_category_dirs[OF cat] show ?case by simp
qed

text \<open>
  Claim C6, as the code has it. After a completed run the file
  \<^verbatim>\<open>asset_manifest.json\<close> of the output directory holds an object with the single key
  \<^verbatim>\<open>"assets"\<close>, whose value is the list of the processor's entries; every entry is an
  object with exactly the keys \<^verbatim>\<open>"type"\<close>, \<^verbatim>\<open>"source"\<close> and \<^verbatim>\<open>"output"\<close>. This
  is never the layout of the specification (a mapping from asset ID to a record of seven
  fields). When the assets and output directories are neither inside the other, the
  entries are those the processor had, then one per file processed, in processing order.
\<close>

theorem manifest_file_layout:
  assumes run: "process_all_assets self w = Inr (True, self', w')"
  shows "stat (files w') (output_dir self @ [''asset_manifest.json'']) =
           Some (File (JsonText (JObject [(''assets'', JArray (map entry_json (manifest self')))]))) \<and>
         (\<forall>e. entry_json e =
                JObject [(''type'', JString (entry_type e)), (''source'', JString (entry_source e)),
                         (''output'', JString (entry_output e))] \<and>
              json_keys (entry_json e) = [''type'', ''source'', ''output'']) \<and>
         \<not> spec_manifest_shape (JObject [(''assets'', JArray (map entry_json (manifest self')))]) \<and>
         (separate (assets_dir self) (output_dir self) \<longrightarrow>
            manifest self' = manifest self @
              expected_manifest categories (assets_dir self) (output_dir self) (files w))"
proof -
  from process_all_assets_steps[OF run] obtain t w4 w5 where
    pc: "process_categories categories self
           ((print ''Starting asset processing...'' w)\<lparr>files := t\<rparr>) = Inr (self', w4)" and
    gm: "generate_manifest self' w4 = Inr w5" and
    w': "w' = print ''Asset processing complete!'' w5" by blast
  from process_categories_dirs[OF pc] have mf: "manifest_file self' = manifest_file self"
    by (simp add: manifest_file_def)
  from generate_manifest_Inr[OF gm] have
    "stat (files w5) (manifest_file self') = Some (File (JsonText (manifest_json (manifest self'))))"
    by blast
  then have
    "stat (files w5) (manifest_file self) = Some (File (JsonText (manifest_json (manifest self'))))"
    unfolding mf .
  then have A: "stat (files w') (output_dir self @ [''asset_manifest.json'']) =
           Some (File (JsonText (JObject [(''assets'', JArray (map entry_json (manifest self')))])))"
    unfolding w' by (simp add: print_def manifest_file_def manifest_json_def)
  have B: "separate (assets_dir self) (output_dir self) \<longrightarrow>
            manifest self' = manifest self @
              expected_manifest categories (assets_dir self) (output_dir self) (files w)"
  proof
    assume "separate (assets_dir self) (output_dir self)"
    from run_summary[OF run this] have
      "self' = self\<lparr>manifest := manifest self @
         expected_manifest categories (assets_dir self) (output_dir self) (files w)\<rparr>" by blast
    then show "manifest self' = manifest self @
              expected_manifest categories (assets_dir self) (output_dir self) (files w)" by simp
  qed
  from A B show ?thesis by (simp add: entry_json_def)
qed

theorem manifest_file_layout_witness:
  "process_all_assets (AssetProcessor_init [''assets''] [''output''])
     (end_to_end_project (Bytes ''PNG'') (Bytes ''void main() {}'')) =
     Inr (True,
          \<lparr>assets_dir = [''assets''], output_dir = [''output''], manifest = end_to_end_manifest\<rparr>,
          end_to_end_result (Bytes ''PNG'') (Bytes ''void main() {}'')) \<and>
   separate [''assets''] [''output''] \<and>
   stat (files (end_to_end_result (Bytes ''PNG'') (Bytes ''void main() {}'')))
        [''output'', ''asset_manifest.json''] =
     Some (File (JsonText (JObject [(''assets'', JArray (map entry_json end_to_end_manifest))]))) \<and>
   end_to_end_manifest =
     expected_manifest categories [''assets''] [''output'']
       (files (end_to_end_project (Bytes ''PNG'') (Bytes ''void main() {}'')))"
proof -
  let ?p = "AssetProcessor_init [''assets''] [''output'']"
  let ?w = "end_to_end_project (Bytes ''PNG'') (Bytes ''void main() {}'')"
  let ?w1 = "end_to_end_result (Bytes ''PNG'') (Bytes ''void main() {}'')"
  let ?s1 = "\<lparr>assets_dir = [''assets''], output_dir = [''output''],
              manifest = end_to_end_manifest\<rparr>"
  have run: "process_all_assets ?p ?w = Inr (True, ?s1, ?w1)"
    unfolding end_to_end_project_def end_to_end_result_def end_to_end_manifest_def
    by code_simp
  have a: "assets_dir ?p = [''assets'']" and o: "output_dir ?p = [''output'']"
    and m: "manifest ?p = []"
    by (simp_all add: AssetProcessor_init_def)
  have sep: "separate [''assets''] [''output'']"
    by (simp add: separate_def)
  from manifest_file_layout[OF run] sep
  have "stat (files ?w1) (output_dir ?p @ [''asset_manifest.json'']) =
           Some (File (JsonText (JObject [(''assets'', JArray (map entry_json (manifest ?s1)))])))"
       "manifest ?s1 = manifest ?p @
              expected_manifest categories (assets_dir ?p) (output_dir ?p) (files ?w)"
    unfolding a o by blast+
  then have r: "stat (files ?w1) [''output'', ''asset_manifest.json''] =
     Some (File (JsonText (JObject [(''assets'', JArray (map entry_json end_to_end_manifest))])))"
     "end_to_end_manifest = expected_manifest categories [''assets''] [''output''] (files ?w)"
    unfolding a o m by simp_all
  show ?thesis
    by (intro conjI) (rule run sep r)+
qed

text \<open>
  The manifest written for the end-to-end project: a list under \<^verbatim>\<open>"assets"\<close>, not a
  mapping keyed by asset ID, and records of three fields, not seven.
\<close>

theorem manifest_is_a_list_of_three_fields:
  "process_all_assets (AssetProcessor_init [''assets''] [''output''])
     (end_to_end_project (Bytes ''PNG'') (Bytes ''void main() {}'')) =
     Inr (True,
          \<lparr>assets_dir = [''assets''], output_dir = [''output''], manifest = end_to_end_manifest\<rparr>,
          end_to_end_result (Bytes ''PNG'') (Bytes ''void main() {}'')) \<and>
   stat (files (end_to_end_result (Bytes ''PNG'') (Bytes ''void main() {}'')))
        [''output'', ''asset_manifest.json''] =
     Some (File (JsonText
       (JObject [(''assets'', JArray
          [JObject [(''type'', JString ''texture''),
                    (''source'', JString ''assets/textures/a.png''),
                    (''output'', JString ''output/textures/a.png'')],
           JObject [(''type'', JString ''shader''),
                    (''source'', JString ''assets/shaders/b.frag''),
                    (''output'', JString ''output/shaders/b.frag'')]])]))) \<and>
   \<not> spec_manifest_shape
       (JObject [(''assets'', JArray
          [JObject [(''type'', JString ''texture''),
                    (''source'', JString ''assets/textures/a.png''),
                    (''output'', JString ''output/textures/a.png'')],
           JObject [(''type'', JString ''shader''),
                    (''source'', JString ''assets/shaders/b.frag''),
                    (''output'', JString ''output/shaders/b.frag'')]])]) \<and>
   \<not> spec_entry_shape
       (JObject [(''type'', JString ''texture''),
                 (''source'', JString ''assets/textures/a.png''),
                 (''output'', JString ''output/textures/a.png'')])"
  unfolding end_to_end_project_def end_to_end_result_def end_to_end_manifest_def
  by code_simp

section \<open>What the loops copy\<close>

lemma discover_member:
  "f \<in> set (discover sub exts a t) \<longleftrightarrow>
     is_dir t (a @ [sub]) \<and> f \<in> fst ` set t \<and> f \<noteq> [] \<and> butlast f = a @ [sub] \<and>
     lower (path_suffix f) \<in> set exts"
  by (auto simp: discover_def glob_star_def iterdir_def recognized_def)

lemma stat_file_listed: "stat t f = Some (File c) \<Longrightarrow> f \<in> fst ` set t \<and> f \<noteq> []"
  by (auto simp: stat_def split: if_splits dest!: map_of_SomeD intro: rev_image_eqI)

lemma expected_manifest_categories:
  "expected_manifest categories a out t =
     map (asset_record ''texture'' (out @ [''textures''])) (discover ''textures'' texture_exts a t) @
     map (asset_record ''model'' (out @ [''models''])) (discover ''models'' model_exts a t) @
     map (asset_record ''audio'' (out @ [''sounds''])) (discover ''sounds'' audio_exts a t) @
     map (asset_record ''shader'' (out @ [''shaders''])) (discover ''shaders'' shader_exts a t)"
  by (simp add: expected_manifest_def categories_def)

lemma expected_lines_categories:
  "expected_lines categories a t =
     map (processing_line ''texture'') (discover ''textures'' texture_exts a t) @
     map (processing_line ''model'') (discover ''models'' model_exts a t) @
     map (processing_line ''audio'') (discover ''sounds'' audio_exts a t) @
     map (processing_line ''shader'') (discover ''shaders'' shader_exts a t)"
  by (simp add: expected_lines_def categories_def)

lemma expected_manifest_member:
  "(sub, kind, exts) \<in> set cs \<Longrightarrow> f \<in> set (discover sub exts a t) \<Longrightarrow>
   asset_record kind (out @ [sub]) f \<in> set (expected_manifest cs a out t)"
  by (force simp: expected_manifest_def)

text \<open>
  Claim C8, as the code has it. Let a run complete, with the assets and output
  directories neither inside the other. A regular file \<open>n\<close> directly in one of the four
  category directories, whose suffix in lower case is in the list of that category, has
  then been copied byte for byte to the same name in the matching subdirectory of the
  output directory; when that place is taken by a directory, the copy is inside it,
  again under the name \<open>n\<close>. The source file is unchanged.
\<close>

theorem verbatim_copy:
  assumes run: "process_all_assets self w = Inr (True, self', w')"
      and sep: "separate (assets_dir self) (output_dir self)"
      and cat: "(sub, kind, exts) \<in> set categories"
      and dir: "is_dir (files w) (assets_dir self @ [sub])"
      and src: "stat (files w) (assets_dir self @ [sub, n]) = Some (File c)"
      and ext: "lower (name_suffix n) \<in> set exts"
  shows "stat (files w')
           (if is_dir (files w) (output_dir self @ [sub, n])
            then output_dir self @ [sub, n, n] else output_dir self @ [sub, n]) = Some (File c) \<and>
         stat (files w') (assets_dir self @ [sub, n]) = Some (File c)"
proof -
  let ?a = "assets_dir self" and ?o = "output_dir self"
  let ?f = "?a @ [sub, n]"
  have nm: "name ?f = n" by (simp add: name_def)
  from stat_file_listed[OF src] dir ext nm have "?f \<in> set (discover sub exts ?a (files w))"
    by (simp add: discover_member path_suffix_def butlast_append)
  with run_summary[OF run sep] cat obtain c' where
    "stat (files w) ?f = Some (File c')"
    "stat (files w') (copy_target (files w) ?f (?o @ [sub, name ?f])) = Some (File c')"
    by blast
  with src nm have "stat (files w') (copy_target (files w) ?f (?o @ [sub, n])) = Some (File c)"
    by simp
  then have A: "stat (files w')
           (if is_dir (files w) (?o @ [sub, n]) then ?o @ [sub, n, n] else ?o @ [sub, n]) =
           Some (File c)"
    unfolding copy_target_def nm by (simp split: if_splits)
  from run_summary[OF run sep] have "preserved (prefix ?o) (files w) (files w')" by blast
  moreover have "\<not> prefix ?o ?f" using separate_outside[OF sep, of "[]" "[sub, n]"] by simp
  ultimately have "stat (files w') ?f = stat (files w) ?f" by (rule preserved_stat)
  with src A show ?thesis by simp
qed

theorem verbatim_copy_witness:
  "process_all_assets (AssetProcessor_init [''assets''] [''output''])
     (end_to_end_project (Bytes ''PNG'') (Bytes ''void main() {}'')) =
     Inr (True,
          \<lparr>assets_dir = [''assets''], output_dir = [''output''], manifest = end_to_end_manifest\<rparr>,
          end_to_end_result (Bytes ''PNG'') (Bytes ''void main() {}'')) \<and>
   separate [''assets''] [''output''] \<and>
   (''shaders'', ''shader'', shader_exts) \<in> set categories \<and>
   is_dir (files (end_to_end_project (Bytes ''PNG'') (Bytes ''void main() {}'')))
     [''assets'', ''shaders''] \<and>
   stat (files (end_to_end_project (Bytes ''PNG'') (Bytes ''void main() {}'')))
     [''assets'', ''shaders'', ''b.frag''] = Some (File (Bytes ''void main() {}'')) \<and>
   lower (name_suffix ''b.frag'') \<in> set shader_exts \<and>
   stat (files (end_to_end_result (Bytes ''PNG'') (Bytes ''void main() {}'')))
     [''output'', ''shaders'', ''b.frag''] = Some (File (Bytes ''void main() {}''))"
proof -
  let ?p = "AssetProcessor_init [''assets''] [''output'']"
  let ?w = "end_to_end_project (Bytes ''PNG'') (Bytes ''void main() {}'')"
  let ?w1 = "end_to_end_result (Bytes ''PNG'') (Bytes ''void main() {}'')"
  let ?s1 = "\<lparr>assets_dir = [''assets''], output_dir = [''output''],
              manifest = end_to_end_manifest\<rparr>"
  have run: "process_all_assets ?p ?w = Inr (True, ?s1, ?w1)"
    unfolding end_to_end_project_def end_to_end_result_def end_to_end_manifest_def
    by code_simp
  have sep: "separate (assets_dir ?p) (output_dir ?p)"
    by (simp add: separate_def AssetProcessor_init_def)
  have sep': "separate [''assets''] [''output'']"
    by (simp add: separate_def)
  have cat: "(''shaders'', ''shader'', shader_exts) \<in> set categories"
    by (simp add: categories_def)
  have dir: "is_dir (files ?w) (assets_dir ?p @ [''shaders''])"
    unfolding end_to_end_project_def by code_simp
  have src: "stat (files ?w) (assets_dir ?p @ [''shaders'', ''b.frag'']) =
               Some (File (Bytes ''void main() {}''))"
    unfolding end_to_end_project_def by code_simp
  have ext: "lower (name_suffix ''b.frag'') \<in> set shader_exts"
    by code_simp
  have nd: "\<not> is_dir (files ?w) (output_dir ?p @ [''shaders'', ''b.frag''])"
    unfolding end_to_end_project_def by code_simp
  from verbatim_copy[OF run sep cat dir src ext] nd
  have "stat (files ?w1) (output_dir ?p @ [''shaders'', ''b.frag'']) =
          Some (File (Bytes ''void main() {}''))" by simp
  then have "stat (files ?w1) [''output'', ''shaders'', ''b.frag''] =
          Some (File (Bytes ''void main() {}''))" by (simp add: AssetProcessor_init_def)
  moreover from dir src have "is_dir (files ?w) [''assets'', ''shaders'']"
    "stat (files ?w) [''assets'', ''shaders'', ''b.frag''] = Some (File (Bytes ''void main() {}''))"
    by (simp_all add: AssetProcessor_init_def)
  ultimately show ?thesis using run sep' cat ext by blast
qed

text \<open>
  Two runs that complete with status 0. In the first, a texture in a subdirectory of
  \<^verbatim>\<open>assets/textures\<close> is not copied at all: the loops list the category directory
  itself and nothing below. In the second, the mirrored path of the texture is a
  directory before the run and still one after it; the bytes are one level further down.
\<close>

theorem nested_or_occupied_not_mirrored:
  "stat (files nested_project) [''assets'', ''textures'', ''ui'', ''c.png''] =
     Some (File (Bytes ''PNG c'')) \<and>
   lower (name_suffix ''c.png'') \<in> set texture_exts \<and>
   main nested_project =
     Inr (0, \<lparr>files = files nested_project @
                      [([''processed_assets''], Dir),
                       ([''processed_assets'', ''textures''], Dir),
                       ([''processed_assets'', ''asset_manifest.json''],
                        File (JsonText (manifest_json [])))],
              stdout = [''Starting asset processing...'',
                        ''Generated manifest: processed_assets/asset_manifest.json'',
                        ''Asset processing complete!'']\<rparr>) \<and>
   stat (files occupied_project) [''assets'', ''textures'', ''a.png''] =
     Some (File (Bytes ''PNG a'')) \<and>
   main occupied_project =
     Inr (0, \<lparr>files = files occupied_project @
                      [([''processed_assets'', ''textures'', ''a.png'', ''a.png''],
                        File (Bytes ''PNG a'')),
                       ([''processed_assets'', ''asset_manifest.json''],
                        File (JsonText (manifest_json
                          [\<lparr>entry_type = ''texture'',
                            entry_source = ''assets/textures/a.png'',
                            entry_output = ''processed_assets/textures/a.png''\<rparr>])))],
              stdout = [''Starting asset processing...'',
                        ''Processing texture: a.png'',
                        ''Generated manifest: processed_assets/asset_manifest.json'',
                        ''Asset processing complete!'']\<rparr>) \<and>
   stat (files occupied_project) [''processed_assets'', ''textures'', ''a.png''] = Some Dir"
  unfolding nested_project_def occupied_project_def by code_simp

lemma process_files_footprint:
  assumes "process_files kind exts outd fl self w = Inr (self', w')"
      and "distinct (map name fl)"
  shows "preserved (\<lambda>q. \<exists>g \<in> set fl. recognized exts g \<and>
                       q = copy_target (files w) g (outd @ [name g]))
           (files w) (files w')"
  using assms
proof (induction fl arbitrary: self w)
  case Nil
  then show ?case by (simp add: preserved_refl)
next
  case (Cons f rest)
  let ?Q = "\<lambda>q. \<exists>g \<in> set (f # rest). recognized exts g \<and>
                       q = copy_target (files w) g (outd @ [name g])"
  from Cons.prems have dr: "distinct (map name rest)" and nf: "name f \<notin> name ` set rest"
    by auto
  show ?case
  proof (cases "recognized exts f")
    case False
    with Cons.prems have r: "process_files kind exts outd rest self w = Inr (self', w')"
      by (simp add: recognized_def)
    from Cons.IH[OF r dr] show ?thesis by (rule preserved_mono) auto
  next
    case True
    let ?w1 = "print (''Processing '' @ kind @ '': '' @ name f) w"
    let ?s1 = "self\<lparr>manifest := manifest self @
                  [\<lparr>entry_type = kind, entry_source = str_path f,
                    entry_output = str_path (outd @ [name f])\<rparr>]\<rparr>"
    let ?g = "copy_target (files w) f (outd @ [name f])"
    from Cons.prems True obtain t1 where
      cp: "copy2 (files w) f (outd @ [name f]) = Inr t1" and
      r: "process_files kind exts outd rest ?s1 (?w1\<lparr>files := t1\<rparr>) = Inr (self', w')"
      by (auto simp: recognized_def print_def Let_def split: sum.splits)
    from copy2_Inr[OF cp] obtain c where gne: "?g \<noteq> []" and
      t1: "t1 = AList.update ?g (File c) (files w)"
      by blast
    have st1: "\<And>p. stat t1 p = (if p = ?g then Some (File c) else stat (files w) p)"
      unfolding t1 using gne by (rule stat_update)
    have gc: "?g = outd @ [name f] \<or> ?g = outd @ [name f, name f]"
      by (rule copy_target_cases)
    have "preserved (\<lambda>q. q = ?g) (files w) t1"
      unfolding t1 by (rule preserved_update) simp
    then have p1: "preserved ?Q (files w) t1"
      by (rule preserved_mono) (use True in auto)
    have same: "copy_target t1 g (outd @ [name g]) = copy_target (files w) g (outd @ [name g])"
      if "g \<in> set rest" for g
    proof -
      from that nf have "name g \<noteq> name f" by (metis imageI)
      with gc have "outd @ [name g] \<noteq> ?g" by auto
      with st1 have "stat t1 (outd @ [name g]) = stat (files w) (outd @ [name g])" by simp
      then show ?thesis by (simp add: copy_target_def is_dir_def)
    qed
    from Cons.IH[OF r dr] have
      "preserved (\<lambda>q. \<exists>g \<in> set rest. recognized exts g \<and>
                       q = copy_target t1 g (outd @ [name g])) t1 (files w')" by simp
    then have "preserved ?Q t1 (files w')"
      by (rule preserved_mono) (use same in auto)
    with p1 show ?thesis by (rule preserved_trans)
  qed
qed

lemma category_footprint_prefix:
  "category_footprint sub exts a out t q \<Longrightarrow> prefix (out @ [sub]) q"
  by (auto simp: category_footprint_def copy_target_def)

lemma category_footprint_cong:
  assumes "separate a out" and "preserved Q t t'" and "\<And>q. Q q \<Longrightarrow> prefix out q"
      and "\<And>r. \<not> Q (out @ sub # r)"
  shows "category_footprint sub exts a out t' = category_footprint sub exts a out t"
proof -
  have outside: "\<not> prefix out (a @ r)" for r
    using separate_outside[OF assms(1), of "[]" r] by simp
  have nq: "\<not> Q (a @ r)" for r using assms(3) outside by blast
  have "preserved (prefix (out @ [])) t t'"
    using assms(2) by (rule preserved_mono) (use assms(3) in simp)
  with assms(1) have disc: "discover sub exts a t' = discover sub exts a t"
    by (rule separate_discover)
  have ex: "path_exists t' (a @ [sub]) = path_exists t (a @ [sub])"
    using preserved_stat[OF assms(2) nq[of "[sub]"]] by (simp add: path_exists_def)
  have ct: "copy_target t' f (out @ [sub, name f]) = copy_target t f (out @ [sub, name f])" for f
  proof -
    have "\<not> Q (out @ sub # [name f])" by (rule assms(4))
    with assms(2) have "stat t' (out @ sub # [name f]) = stat t (out @ sub # [name f])"
      by (rule preserved_stat)
    then show ?thesis by (simp add: copy_target_def is_dir_def)
  qed
  show ?thesis
    by (rule ext) (simp add: category_footprint_def disc ex ct)
qed

lemma process_category_footprint:
  assumes run: "process_category sub kind exts self w = Inr (self', w')"
      and sep: "separate (assets_dir self) (output_dir self)"
  shows "preserved (category_footprint sub exts (assets_dir self) (output_dir self) (files w))
           (files w) (files w')"
proof (cases "path_exists (files w) (assets_dir self @ [sub])")
  case False
  with run have "w' = w" by (simp add: process_category_def)
  then show ?thesis by (simp add: preserved_refl)
next
  case True
  let ?a = "assets_dir self" and ?o = "output_dir self"
  let ?src = "?a @ [sub]" and ?out = "?o @ [sub]"
  let ?F = "category_footprint sub exts ?a ?o (files w)"
  from run True obtain t where
    mk: "mkdir_exist_ok (files w) ?out = Inr t" and
    pf: "process_files kind exts ?out (glob_star t ?src) self (w\<lparr>files := t\<rparr>) = Inr (self', w')"
    by (auto simp: process_category_def Let_def split: sum.splits)
  from mkdir_exist_ok_Inr[OF mk] have pt: "preserved (\<lambda>q. q = ?out) (files w) t" by blast
  from pt have pt': "preserved (prefix ?out) (files w) t"
    by (rule preserved_mono) simp
  have disc: "discover sub exts ?a t = discover sub exts ?a (files w)"
    using sep pt' by (rule separate_discover)
  have p1: "preserved ?F (files w) t"
    using pt by (rule preserved_mono) (use True in \<open>simp add: category_footprint_def\<close>)
  have ct: "copy_target t g (?out @ [name g]) = copy_target (files w) g (?out @ [name g])" for g
  proof -
    have "stat t (?out @ [name g]) = stat (files w) (?out @ [name g])"
      using pt by (rule preserved_stat) simp
    then show ?thesis by (simp add: copy_target_def is_dir_def)
  qed
  from process_files_footprint[OF pf glob_star_distinct_names]
  have "preserved (\<lambda>q. \<exists>g \<in> set (glob_star t ?src). recognized exts g \<and>
                       q = copy_target t g (?out @ [name g])) t (files w')" by simp
  then have "preserved ?F t (files w')"
  proof (rule preserved_mono)
    fix q assume "\<exists>g \<in> set (glob_star t ?src). recognized exts g \<and>
                       q = copy_target t g (?out @ [name g])"
    then obtain g where g: "g \<in> set (glob_star t ?src)" "recognized exts g"
      and q: "q = copy_target t g (?out @ [name g])" by blast
    from g have "g \<in> set (discover sub exts ?a t)" by (simp add: discover_def)
    with disc have "g \<in> set (discover sub exts ?a (files w))" by simp
    moreover from q ct have "q = copy_target (files w) g (?o @ [sub, name g])" by simp
    ultimately show "?F q" unfolding category_footprint_def by blast
  qed
  with p1 show ?thesis by (rule preserved_trans)
qed

lemma process_categories_footprint:
  assumes "process_categories cs self w = Inr (self', w')"
      and "separate (assets_dir self) (output_dir self)"
      and "distinct (map fst cs)"
  shows "preserved (\<lambda>q. \<exists>(sub, kind, exts) \<in> set cs.
                      category_footprint sub exts (assets_dir self) (output_dir self) (files w) q)
           (files w) (files w')"
  using assms
proof (induction cs arbitrary: self w)
  case Nil
  then show ?case by (simp add: preserved_refl)
next
  case (Cons c0 cs)
  obtain sub kind exts where c0: "c0 = (sub, kind, exts)" by (cases c0) auto
  let ?a = "assets_dir self" and ?o = "output_dir self"
  let ?Q = "\<lambda>q. \<exists>(sub, kind, exts) \<in> set (c0 # cs). category_footprint sub exts ?a ?o (files w) q"
  from Cons.prems(1) c0 obtain s1 w1 where
    cat: "process_category sub kind exts self w = Inr (s1, w1)" and
    rest: "process_categories cs s1 w1 = Inr (self', w')"
    by (auto split: sum.splits)
  from Cons.prems(3) c0 have dcs: "distinct (map fst cs)" and
    fresh: "\<And>c. c \<in> set cs \<Longrightarrow> fst c \<noteq> sub" by auto
  note sep = Cons.prems(2)
  from process_category_dirs[OF cat] have a1: "assets_dir s1 = ?a" and o1: "output_dir s1 = ?o"
    by simp_all
  from sep a1 o1 have sep1: "separate (assets_dir s1) (output_dir s1)" by simp
  let ?F = "category_footprint sub exts ?a ?o (files w)"
  from process_category_footprint[OF cat sep] have p1: "preserved ?F (files w) (files w1)" .
  then have P1: "preserved ?Q (files w) (files w1)"
    by (rule preserved_mono) (use c0 in auto)
  from Cons.IH[OF rest sep1 dcs] have
    p2: "preserved (\<lambda>q. \<exists>(sub', kind', exts') \<in> set cs.
                      category_footprint sub' exts' ?a ?o (files w1) q) (files w1) (files w')"
    unfolding a1 o1 .
  have eq: "category_footprint sub' exts' ?a ?o (files w1) = category_footprint sub' exts' ?a ?o (files w)"
    if "(sub', kind', exts') \<in> set cs" for sub' kind' exts'
  proof (rule category_footprint_cong[OF sep p1])
    fix q assume "?F q"
    then have "prefix (?o @ [sub]) q" by (rule category_footprint_prefix)
    then show "prefix ?o q" using append_prefixD by blast
  next
    fix r
    from fresh[OF that] have ne: "sub' \<noteq> sub" by simp
    show "\<not> ?F (?o @ sub' # r)"
    proof
      assume "?F (?o @ sub' # r)"
      then have "prefix (?o @ [sub]) (?o @ sub' # r)" by (rule category_footprint_prefix)
      with ne show False by simp
    qed
  qed
  from p2 have "preserved ?Q (files w1) (files w')"
    by (rule preserved_mono) (use eq in auto)
  with P1 show ?case by (rule preserved_trans)
qed

lemma run_footprint_preserved:
  assumes run: "process_all_assets self w = Inr (True, self', w')"
      and sep: "separate (assets_dir self) (output_dir self)"
  shows "preserved (run_footprint self (files w)) (files w) (files w')"
proof -
  let ?a = "assets_dir self" and ?o = "output_dir self"
  let ?w0 = "print ''Starting asset processing...'' w"
  let ?F = "run_footprint self (files w)"
  from process_all_assets_steps[OF run] obtain t w4 w5 where
    mk: "mkdir_exist_ok (files w) ?o = Inr t" and
    pc: "process_categories categories self (?w0\<lparr>files := t\<rparr>) = Inr (self', w4)" and
    gm: "generate_manifest self' w4 = Inr w5" and
    w': "w' = print ''Asset processing complete!'' w5" by blast
  from mkdir_exist_ok_Inr[OF mk] have pt: "preserved (\<lambda>q. q = ?o) (files w) t" by blast
  then have P1: "preserved ?F (files w) t"
    by (rule preserved_mono) (simp add: run_footprint_def)
  have eq: "category_footprint sub exts ?a ?o t = category_footprint sub exts ?a ?o (files w)"
    for sub exts
    by (rule category_footprint_cong[OF sep pt]) simp_all
  from process_categories_footprint[OF pc sep categories_distinct]
  have "preserved (\<lambda>q. \<exists>(sub, kind, exts) \<in> set categories.
                      category_footprint sub exts ?a ?o t q) t (files w4)" by simp
  then have P2: "preserved ?F t (files w4)"
    by (rule preserved_mono) (use eq in \<open>auto simp: run_footprint_def\<close>)
  from process_categories_dirs[OF pc] have mfs: "manifest_file self' = manifest_file self"
    by (simp add: manifest_file_def)
  from generate_manifest_Inr[OF gm] have
    f5: "files w5 = AList.update (manifest_file self)
                      (File (JsonText (manifest_json (manifest self')))) (files w4)"
    unfolding mfs by blast
  have fw': "files w' = files w5" unfolding w' by (simp add: print_def)
  have "preserved (\<lambda>q. q = manifest_file self) (files w4) (files w')"
    unfolding fw' f5 by (rule preserved_update) simp
  then have P3: "preserved ?F (files w4) (files w')"
    by (rule preserved_mono) (simp add: run_footprint_def)
  from P1 P2 have "preserved ?F (files w) (files w4)" by (rule preserved_trans)
  then show ?thesis using P3 by (rule preserved_trans)
qed

lemma str_path_snoc: "d \<noteq> [] \<Longrightarrow> str_path (d @ [n]) = str_path d @ ''/'' @ n"
  by (cases d) simp_all

lemma categories_kind:
  "(sub, kind, exts) \<in> set categories \<Longrightarrow> (sub', kind, exts') \<in> set categories \<Longrightarrow>
   sub' = sub \<and> exts' = exts"
  by (auto simp: categories_def)

lemma expected_manifest_record:
  assumes cat: "(sub, kind, exts) \<in> set categories"
  shows "asset_record kind (out @ [sub]) (a @ [sub, n]) \<in> set (expected_manifest categories a out t)
         \<longleftrightarrow> a @ [sub, n] \<in> set (discover sub exts a t)"
proof
  assume "a @ [sub, n] \<in> set (discover sub exts a t)"
  with cat show "asset_record kind (out @ [sub]) (a @ [sub, n]) \<in>
                 set (expected_manifest categories a out t)"
    by (rule expected_manifest_member)
next
  assume "asset_record kind (out @ [sub]) (a @ [sub, n]) \<in>
          set (expected_manifest categories a out t)"
  then obtain sub' kind' exts' f where c': "(sub', kind', exts') \<in> set categories"
    and f: "f \<in> set (discover sub' exts' a t)"
    and e: "asset_record kind' (out @ [sub']) f = asset_record kind (out @ [sub]) (a @ [sub, n])"
    by (auto simp: expected_manifest_def)
  from e have k: "kind' = kind" and sp: "str_path f = str_path (a @ [sub, n])"
    by (simp_all add: asset_record_def)
  from categories_kind[OF cat c'[unfolded k]] have s: "sub' = sub" and x: "exts' = exts"
    by simp_all
  from f s have ff: "f = (a @ [sub]) @ [name f]"
    using glob_star_child by (fastforce simp: discover_def)
  have "str_path ((a @ [sub]) @ [name f]) = str_path (a @ [sub]) @ ''/'' @ name f"
    by (rule str_path_snoc) simp
  moreover have "str_path ((a @ [sub]) @ [n]) = str_path (a @ [sub]) @ ''/'' @ n"
    by (rule str_path_snoc) simp
  ultimately have "name f = n" using sp ff by simp
  with ff have "f = a @ [sub, n]" by simp
  with f s x show "a @ [sub, n] \<in> set (discover sub exts a t)" by simp
qed

lemma unselected_outside_footprint:
  assumes cat: "(sub, kind, exts) \<in> set categories"
      and un: "a @ [sub, n] \<notin> set (discover sub exts a t)"
      and q: "q = out @ [sub, n] \<or> q = out @ [sub, n, n]"
  shows "\<not> (\<exists>(sub', kind', exts') \<in> set categories. category_footprint sub' exts' a out t q)"
proof
  assume "\<exists>(sub', kind', exts') \<in> set categories. category_footprint sub' exts' a out t q"
  then obtain sub' kind' exts' where c': "(sub', kind', exts') \<in> set categories"
    and fp: "category_footprint sub' exts' a out t q" by blast
  from fp q obtain f where f: "f \<in> set (discover sub' exts' a t)"
    and qf: "q = copy_target t f (out @ [sub', name f])"
    by (auto simp: category_footprint_def)
  from qf have "q = out @ [sub', name f] \<or> q = out @ [sub', name f, name f]"
    by (simp add: copy_target_def)
  with q have s: "sub' = sub" and nm: "name f = n" by auto
  from categories_distinct cat c' s have "exts' = exts"
    by (auto simp: categories_def)
  moreover from f s have "f = a @ [sub, name f]"
    using glob_star_child by (fastforce simp: discover_def)
  ultimately have "a @ [sub, n] \<in> set (discover sub exts a t)" using f s nm by simp
  with un show False by contradiction
qed

text \<open>
  Claim C10, as the code has it. After a run that completes (assets and output
  directories neither inside the other) the manifest and the output are exactly those of
  the files the four loops select, category by category in listing order, with nothing
  printed about any other entry. A path is selected in a category exactly when the
  category directory is a directory, the path is one of its own entries (not deeper), and
  the suffix of its name, in lower case, is in the list of the category. Every selected
  path is a regular file, its bytes are at the destination of the copy, and it has its
  entry among those the run appended to the manifest. Nothing else is written: a path
  whose state after the run differs from its state before is the output directory, the
  output directory of a category, the manifest file, or the destination of the copy of a
  selected file. In particular, for a name \<open>n\<close> that is not selected in a category,
  the two places where a copy of it would go are as they were before the run, and no
  appended entry is about it.
\<close>

theorem loops_select_by_suffix:
  assumes run: "process_all_assets self w = Inr (True, self', w')"
      and sep: "separate (assets_dir self) (output_dir self)"
  shows "manifest self' = manifest self @
           map (asset_record ''texture'' (output_dir self @ [''textures'']))
               (discover ''textures'' texture_exts (assets_dir self) (files w)) @
           map (asset_record ''model'' (output_dir self @ [''models'']))
               (discover ''models'' model_exts (assets_dir self) (files w)) @
           map (asset_record ''audio'' (output_dir self @ [''sounds'']))
               (discover ''sounds'' audio_exts (assets_dir self) (files w)) @
           map (asset_record ''shader'' (output_dir self @ [''shaders'']))
               (discover ''shaders'' shader_exts (assets_dir self) (files w)) \<and>
         stdout w' = stdout w @
           [''Starting asset processing...''] @
           map (processing_line ''texture'')
               (discover ''textures'' texture_exts (assets_dir self) (files w)) @
           map (processing_line ''model'')
               (discover ''models'' model_exts (assets_dir self) (files w)) @
           map (processing_line ''audio'')
               (discover ''sounds'' audio_exts (assets_dir self) (files w)) @
           map (processing_line ''shader'')
               (discover ''shaders'' shader_exts (assets_dir self) (files w)) @
           [''Generated manifest: '' @ str_path (output_dir self @ [''asset_manifest.json'']),
            ''Asset processing complete!''] \<and>
         (\<forall>(sub, kind, exts) \<in> set categories. \<forall>f.
            (f \<in> set (discover sub exts (assets_dir self) (files w)) \<longleftrightarrow>
               is_dir (files w) (assets_dir self @ [sub]) \<and> f \<in> fst ` set (files w) \<and>
               f \<noteq> [] \<and> butlast f = assets_dir self @ [sub] \<and>
               lower (path_suffix f) \<in> set exts) \<and>
            (f \<in> set (discover sub exts (assets_dir self) (files w)) \<longrightarrow>
               (\<exists>c. stat (files w) f = Some (File c) \<and>
                    stat (files w')
                      (copy_target (files w) f (output_dir self @ [sub, name f])) =
                      Some (File c)))) \<and>
         (\<forall>q. stat (files w') q \<noteq> stat (files w) q \<longrightarrow>
            q = output_dir self \<or> q = output_dir self @ [''asset_manifest.json''] \<or>
            (\<exists>(sub, kind, exts) \<in> set categories.
               q = output_dir self @ [sub] \<or>
               (\<exists>f \<in> set (discover sub exts (assets_dir self) (files w)).
                  q = copy_target (files w) f (output_dir self @ [sub, name f])))) \<and>
         (\<forall>(sub, kind, exts) \<in> set categories. \<forall>n.
            if is_dir (files w) (assets_dir self @ [sub]) \<and>
               assets_dir self @ [sub, n] \<in> fst ` set (files w) \<and>
               lower (name_suffix n) \<in> set exts
            then (\<exists>c. stat (files w) (assets_dir self @ [sub, n]) = Some (File c) \<and>
                      stat (files w')
                        (if is_dir (files w) (output_dir self @ [sub, n])
                         then output_dir self @ [sub, n, n] else output_dir self @ [sub, n]) =
                        Some (File c)) \<and>
                 asset_record kind (output_dir self @ [sub]) (assets_dir self @ [sub, n]) \<in>
                   set (drop (length (manifest self)) (manifest self'))
            else stat (files w') (output_dir self @ [sub, n]) =
                   stat (files w) (output_dir self @ [sub, n]) \<and>
                 stat (files w') (output_dir self @ [sub, n, n]) =
                   stat (files w) (output_dir self @ [sub, n, n]) \<and>
                 asset_record kind (output_dir self @ [sub]) (assets_dir self @ [sub, n]) \<notin>
                   set (drop (length (manifest self)) (manifest self')))"
proof -
  let ?a = "assets_dir self" and ?o = "output_dir self"
  from run_summary[OF run sep] have
    m: "self' = self\<lparr>manifest := manifest self @ expected_manifest categories ?a ?o (files w)\<rparr>" and
    l: "stdout w' = stdout w @ run_lines ?a ?o (files w)" and
    c: "\<forall>(sub, kind, exts) \<in> set categories.
            (\<forall>f \<in> set (discover sub exts ?a (files w)).
               \<exists>c. stat (files w) f = Some (File c) \<and>
                   stat (files w') (copy_target (files w) f (?o @ [sub, name f])) = Some (File c) \<and>
                   copy_target (files w') f (?o @ [sub, name f]) =
                   copy_target (files w) f (?o @ [sub, name f])) \<and>
            (path_exists (files w) (?a @ [sub]) \<longrightarrow> is_dir (files w') (?o @ [sub]))"
    by blast+
  from m have A: "manifest self' = manifest self @ expected_manifest categories ?a ?o (files w)"
    by simp
  then have added: "drop (length (manifest self)) (manifest self') =
                    expected_manifest categories ?a ?o (files w)" by simp
  have C: "\<forall>(sub, kind, exts) \<in> set categories. \<forall>f.
            (f \<in> set (discover sub exts ?a (files w)) \<longleftrightarrow>
               is_dir (files w) (?a @ [sub]) \<and> f \<in> fst ` set (files w) \<and>
               f \<noteq> [] \<and> butlast f = ?a @ [sub] \<and> lower (path_suffix f) \<in> set exts) \<and>
            (f \<in> set (discover sub exts ?a (files w)) \<longrightarrow>
               (\<exists>c. stat (files w) f = Some (File c) \<and>
                    stat (files w') (copy_target (files w) f (?o @ [sub, name f])) =
                      Some (File c)))"
  proof (intro ballI, clarify, intro conjI impI)
    fix sub kind exts f
    assume cat: "(sub, kind, exts) \<in> set categories"
    show "f \<in> set (discover sub exts ?a (files w)) \<longleftrightarrow>
               is_dir (files w) (?a @ [sub]) \<and> f \<in> fst ` set (files w) \<and>
               f \<noteq> [] \<and> butlast f = ?a @ [sub] \<and> lower (path_suffix f) \<in> set exts"
      by (rule discover_member)
    assume "f \<in> set (discover sub exts ?a (files w))"
    with c cat show "\<exists>c. stat (files w) f = Some (File c) \<and>
                    stat (files w') (copy_target (files w) f (?o @ [sub, name f])) =
                      Some (File c)" by blast
  qed
  note fp = run_footprint_preserved[OF run sep]
  have D: "\<forall>q. stat (files w') q \<noteq> stat (files w) q \<longrightarrow>
            q = ?o \<or> q = ?o @ [''asset_manifest.json''] \<or>
            (\<exists>(sub, kind, exts) \<in> set categories.
               q = ?o @ [sub] \<or>
               (\<exists>f \<in> set (discover sub exts ?a (files w)).
                  q = copy_target (files w) f (?o @ [sub, name f])))"
  proof (intro allI impI)
    fix q assume ch: "stat (files w') q \<noteq> stat (files w) q"
    have "run_footprint self (files w) q"
    proof (rule ccontr)
      assume "\<not> run_footprint self (files w) q"
      with fp have "stat (files w') q = stat (files w) q" by (rule preserved_stat)
      with ch show False by contradiction
    qed
    then show "q = ?o \<or> q = ?o @ [''asset_manifest.json''] \<or>
            (\<exists>(sub, kind, exts) \<in> set categories.
               q = ?o @ [sub] \<or>
               (\<exists>f \<in> set (discover sub exts ?a (files w)).
                  q = copy_target (files w) f (?o @ [sub, name f])))"
      unfolding run_footprint_def category_footprint_def manifest_file_def by fast
  qed
  have E: "\<forall>(sub, kind, exts) \<in> set categories. \<forall>n.
            if is_dir (files w) (?a @ [sub]) \<and> ?a @ [sub, n] \<in> fst ` set (files w) \<and>
               lower (name_suffix n) \<in> set exts
            then (\<exists>c. stat (files w) (?a @ [sub, n]) = Some (File c) \<and>
                      stat (files w')
                        (if is_dir (files w) (?o @ [sub, n])
                         then ?o @ [sub, n, n] else ?o @ [sub, n]) = Some (File c)) \<and>
                 asset_record kind (?o @ [sub]) (?a @ [sub, n]) \<in>
                   set (drop (length (manifest self)) (manifest self'))
            else stat (files w') (?o @ [sub, n]) = stat (files w) (?o @ [sub, n]) \<and>
                 stat (files w') (?o @ [sub, n, n]) = stat (files w) (?o @ [sub, n, n]) \<and>
                 asset_record kind (?o @ [sub]) (?a @ [sub, n]) \<notin>
                   set (drop (length (manifest self)) (manifest self'))"
  proof (intro ballI, clarify)
    fix sub kind exts n
    assume cat: "(sub, kind, exts) \<in> set categories"
    let ?f = "?a @ [sub, n]"
    let ?sel = "is_dir (files w) (?a @ [sub]) \<and> ?f \<in> fst ` set (files w) \<and>
                lower (name_suffix n) \<in> set exts"
    have nm: "name ?f = n" by (simp add: name_def)
    have sel: "?sel \<longleftrightarrow> ?f \<in> set (discover sub exts ?a (files w))"
      by (simp add: discover_member path_suffix_def nm butlast_append)
    have rec: "asset_record kind (?o @ [sub]) ?f \<in>
                 set (drop (length (manifest self)) (manifest self')) \<longleftrightarrow>
               ?f \<in> set (discover sub exts ?a (files w))"
      unfolding added using cat by (rule expected_manifest_record)
    show "if ?sel
          then (\<exists>c. stat (files w) ?f = Some (File c) \<and>
                    stat (files w')
                      (if is_dir (files w) (?o @ [sub, n])
                       then ?o @ [sub, n, n] else ?o @ [sub, n]) = Some (File c)) \<and>
               asset_record kind (?o @ [sub]) ?f \<in>
                 set (drop (length (manifest self)) (manifest self'))
          else stat (files w') (?o @ [sub, n]) = stat (files w) (?o @ [sub, n]) \<and>
               stat (files w') (?o @ [sub, n, n]) = stat (files w) (?o @ [sub, n, n]) \<and>
               asset_record kind (?o @ [sub]) ?f \<notin>
                 set (drop (length (manifest self)) (manifest self'))"
    proof (cases ?sel)
      case True
      with sel have d: "?f \<in> set (discover sub exts ?a (files w))" by simp
      with c cat obtain x where "stat (files w) ?f = Some (File x)"
        "stat (files w') (copy_target (files w) ?f (?o @ [sub, name ?f])) = Some (File x)"
        by blast
      then have "\<exists>c. stat (files w) ?f = Some (File c) \<and>
                    stat (files w')
                      (if is_dir (files w) (?o @ [sub, n])
                       then ?o @ [sub, n, n] else ?o @ [sub, n]) = Some (File c)"
        unfolding copy_target_def nm by (auto split: if_splits)
      moreover from rec d have "asset_record kind (?o @ [sub]) ?f \<in>
                 set (drop (length (manifest self)) (manifest self'))" by simp
      ultimately show ?thesis using True by simp
    next
      case False
      with sel have un: "?f \<notin> set (discover sub exts ?a (files w))" by simp
      have out: "\<not> run_footprint self (files w) q"
        if q: "q = ?o @ [sub, n] \<or> q = ?o @ [sub, n, n]" for q
      proof -
        from unselected_outside_footprint[OF cat un q]
        have "\<not> (\<exists>(sub', kind', exts') \<in> set categories.
                   category_footprint sub' exts' ?a ?o (files w) q)" .
        moreover from q have "q \<noteq> ?o" "q \<noteq> manifest_file self"
          by (auto simp: manifest_file_def)
        ultimately show ?thesis unfolding run_footprint_def by blast
      qed
      have "stat (files w') (?o @ [sub, n]) = stat (files w) (?o @ [sub, n])"
        using fp by (rule preserved_stat) (rule out, simp)
      moreover have "stat (files w') (?o @ [sub, n, n]) = stat (files w) (?o @ [sub, n, n])"
        using fp by (rule preserved_stat) (rule out, simp)
      moreover from rec un have "asset_record kind (?o @ [sub]) ?f \<notin>
                 set (drop (length (manifest self)) (manifest self'))" by simp
      ultimately show ?thesis using False by simp
    qed
  qed
  have AL: "manifest self' = manifest self @
           map (asset_record ''texture'' (?o @ [''textures'']))
               (discover ''textures'' texture_exts ?a (files w)) @
           map (asset_record ''model'' (?o @ [''models'']))
               (discover ''models'' model_exts ?a (files w)) @
           map (asset_record ''audio'' (?o @ [''sounds'']))
               (discover ''sounds'' audio_exts ?a (files w)) @
           map (asset_record ''shader'' (?o @ [''shaders'']))
               (discover ''shaders'' shader_exts ?a (files w)) \<and>
         stdout w' = stdout w @
           [''Starting asset processing...''] @
           map (processing_line ''texture'')
               (discover ''textures'' texture_exts ?a (files w)) @
           map (processing_line ''model'')
               (discover ''models'' model_exts ?a (files w)) @
           map (processing_line ''audio'')
               (discover ''sounds'' audio_exts ?a (files w)) @
           map (processing_line ''shader'')
               (discover ''shaders'' shader_exts ?a (files w)) @
           [''Generated manifest: '' @ str_path (?o @ [''asset_manifest.json'']),
            ''Asset processing complete!'']"
    using A l
    unfolding expected_manifest_categories run_lines_def expected_lines_categories
    by simp
  from AL C D E show ?thesis by (intro conjI) (blast+)
qed

theorem loops_select_by_suffix_witness:
  "process_all_assets (AssetProcessor_init [''assets''] [''processed_assets'']) mixed_project =
     Inr (True,
          \<lparr>assets_dir = [''assets''], output_dir = [''processed_assets''],
            manifest = mixed_manifest\<rparr>,
          mixed_result) \<and>
   separate [''assets''] [''processed_assets''] \<and>
   discover ''textures'' texture_exts [''assets''] (files mixed_project) =
     [[''assets'', ''textures'', ''LOGO.PNG'']] \<and>
   discover ''models'' model_exts [''assets''] (files mixed_project) = [] \<and>
   discover ''sounds'' audio_exts [''assets''] (files mixed_project) = [] \<and>
   discover ''shaders'' shader_exts [''assets''] (files mixed_project) = [] \<and>
   (\<exists>c. stat (files mixed_project) [''assets'', ''textures'', ''LOGO.PNG''] = Some (File c) \<and>
        stat (files mixed_result) [''processed_assets'', ''textures'', ''LOGO.PNG''] =
          Some (File c)) \<and>
   [''assets'', ''textures'', ''notes.txt''] \<in> fst ` set (files mixed_project) \<and>
   lower (name_suffix ''notes.txt'') \<notin> set texture_exts \<and>
   stat (files mixed_result) [''processed_assets'', ''textures'', ''notes.txt''] = None \<and>
   asset_record ''texture'' [''processed_assets'', ''textures'']
     [''assets'', ''textures'', ''notes.txt''] \<notin> set mixed_manifest"
proof -
  let ?p = "AssetProcessor_init [''assets''] [''processed_assets'']"
  let ?s1 = "\<lparr>assets_dir = [''assets''], output_dir = [''processed_assets''],
              manifest = mixed_manifest\<rparr>"
  let ?f = "[''assets'', ''textures'', ''LOGO.PNG'']"
  have run: "process_all_assets ?p mixed_project = Inr (True, ?s1, mixed_result)"
    unfolding mixed_project_def mixed_result_def mixed_manifest_def by code_simp
  have sep: "separate (assets_dir ?p) (output_dir ?p)"
    by (simp add: separate_def AssetProcessor_init_def)
  have sep': "separate [''assets''] [''processed_assets'']"
    by (simp add: separate_def)
  have d: "discover ''models'' model_exts [''assets''] (files mixed_project) = []"
          "discover ''sounds'' audio_exts [''assets''] (files mixed_project) = []"
          "discover ''shaders'' shader_exts [''assets''] (files mixed_project) = []"
    unfolding mixed_project_def by code_simp+
  have dt: "discover ''textures'' texture_exts [''assets''] (files mixed_project) = [?f]"
    unfolding mixed_project_def by code_simp
  have cat: "(''textures'', ''texture'', texture_exts) \<in> set categories"
    by (simp add: categories_def)
  have ct: "copy_target (files mixed_project) ?f
              (output_dir ?p @ [''textures'', name ?f]) =
            [''processed_assets'', ''textures'', ''LOGO.PNG'']"
    unfolding mixed_project_def by code_simp
  have a: "assets_dir ?p = [''assets'']" and o: "output_dir ?p = [''processed_assets'']"
    and m0: "manifest ?p = []"
    by (simp_all add: AssetProcessor_init_def)
  from dt have m: "?f \<in> set (discover ''textures'' texture_exts (assets_dir ?p) (files mixed_project))"
    unfolding a by simp
  note sel = loops_select_by_suffix[OF run sep]
  from sel cat m
  obtain c where "stat (files mixed_project) ?f = Some (File c)"
    "stat (files mixed_result)
       (copy_target (files mixed_project) ?f (output_dir ?p @ [''textures'', name ?f])) =
     Some (File c)"
    by blast
  then have e: "\<exists>c. stat (files mixed_project) ?f = Some (File c) \<and>
     stat (files mixed_result) [''processed_assets'', ''textures'', ''LOGO.PNG''] = Some (File c)"
    unfolding ct by blast
  have listed: "[''assets'', ''textures'', ''notes.txt''] \<in> fst ` set (files mixed_project)"
    unfolding mixed_project_def by simp
  have ns: "lower (name_suffix ''notes.txt'') \<notin> set texture_exts" by code_simp
  have before: "stat (files mixed_project) [''processed_assets'', ''textures'', ''notes.txt''] = None"
    unfolding mixed_project_def by code_simp
  from sel cat have
    "if is_dir (files mixed_project) (assets_dir ?p @ [''textures'']) \<and>
        assets_dir ?p @ [''textures'', ''notes.txt''] \<in> fst ` set (files mixed_project) \<and>
        lower (name_suffix ''notes.txt'') \<in> set texture_exts
     then (\<exists>c. stat (files mixed_project) (assets_dir ?p @ [''textures'', ''notes.txt'']) = Some (File c) \<and>
               stat (files mixed_result)
                 (if is_dir (files mixed_project) (output_dir ?p @ [''textures'', ''notes.txt''])
                  then output_dir ?p @ [''textures'', ''notes.txt'', ''notes.txt'']
                  else output_dir ?p @ [''textures'', ''notes.txt'']) = Some (File c)) \<and>
          asset_record ''texture'' (output_dir ?p @ [''textures''])
            (assets_dir ?p @ [''textures'', ''notes.txt'']) \<in>
            set (drop (length (manifest ?p)) (manifest ?s1))
     else stat (files mixed_result) (output_dir ?p @ [''textures'', ''notes.txt'']) =
            stat (files mixed_project) (output_dir ?p @ [''textures'', ''notes.txt'']) \<and>
          stat (files mixed_result) (output_dir ?p @ [''textures'', ''notes.txt'', ''notes.txt'']) =
            stat (files mixed_project) (output_dir ?p @ [''textures'', ''notes.txt'', ''notes.txt'']) \<and>
          asset_record ''texture'' (output_dir ?p @ [''textures''])
            (assets_dir ?p @ [''textures'', ''notes.txt'']) \<notin>
            set (drop (length (manifest ?p)) (manifest ?s1))"
    by blast
  with ns have
    "stat (files mixed_result) (output_dir ?p @ [''textures'', ''notes.txt'']) =
       stat (files mixed_project) (output_dir ?p @ [''textures'', ''notes.txt''])"
    "asset_record ''texture'' (output_dir ?p @ [''textures''])
       (assets_dir ?p @ [''textures'', ''notes.txt'']) \<notin>
       set (drop (length (manifest ?p)) (manifest ?s1))"
    by simp_all
  then have u: "stat (files mixed_result) [''processed_assets'', ''textures'', ''notes.txt''] = None"
    "asset_record ''texture'' [''processed_assets'', ''textures'']
       [''assets'', ''textures'', ''notes.txt''] \<notin> set mixed_manifest"
    unfolding a o m0 using before by simp_all
  show ?thesis
    by (intro conjI) (rule run sep' dt d e listed ns u)+
qed

text \<open>
  The iff of the claim does not hold of every run: in both runs below
  \<^verbatim>\<open>assets/textures/a.png\<close> is a regular file, an immediate child, with a listed
  suffix, and it is not copied. In the first the output directory cannot be created,
  and the run ends with \<^verbatim>\<open>FileExistsError\<close> before any loop. In the second the
  directory \<^verbatim>\<open>d.png\<close>, listed before it, passes the same test, \<^verbatim>\<open>shutil.copy2\<close>
  raises on it, and the run ends there. Neither run writes a manifest.
\<close>

theorem qualifying_file_not_copied:
  "stat (files blocked_assets_project) [''assets'', ''textures'', ''a.png''] =
     Some (File (Bytes ''PNG a'')) \<and>
   stat (files png_directory_project) [''assets'', ''textures'', ''a.png''] =
     Some (File (Bytes ''PNG a'')) \<and>
   butlast [''assets'', ''textures'', ''a.png''] = [''assets'', ''textures''] \<and>
   lower (path_suffix [''assets'', ''textures'', ''a.png'']) \<in> set texture_exts \<and>
   main blocked_assets_project =
     Inl (FileExistsError,
          \<lparr>files = files blocked_assets_project,
            stdout = [''Starting asset processing...'']\<rparr>) \<and>
   main png_directory_project =
     Inl (IsADirectoryError,
          \<lparr>files = files png_directory_project @
                   [([''processed_assets''], Dir),
                    ([''processed_assets'', ''textures''], Dir)],
            stdout = [''Starting asset processing...'',
                      ''Processing texture: d.png'']\<rparr>)"
  unfolding png_directory_project_def blocked_assets_project_def by code_simp

section \<open>Two sources for one output file\<close>

text \<open>
  Where every name has a file of its own, two different sources of a run never have
  the same destination. Two sources with one output identity are therefore found only
  where names are aliased.
\<close>

lemma copy_targets_differ:
  assumes "f1 \<in> set (discover sub1 exts1 a t)" "f2 \<in> set (discover sub2 exts2 a t)" "f1 \<noteq> f2"
  shows "copy_target t f1 (out @ [sub1, name f1]) \<noteq> copy_target t f2 (out @ [sub2, name f2])"
proof -
  from assms(1) have 1: "f1 = a @ [sub1, name f1]"
    using glob_star_child by (fastforce simp: discover_def)
  from assms(2) have 2: "f2 = a @ [sub2, name f2]"
    using glob_star_child by (fastforce simp: discover_def)
  from 1 2 assms(3) have "sub1 \<noteq> sub2 \<or> name f1 \<noteq> name f2" by metis
  then show ?thesis by (auto simp: copy_target_def)
qed

text \<open>With nothing aliased, the functions for aliased names are the functions of the script.\<close>

lemma copy2_aliased_id: "copy2_aliased (\<lambda>p. p) = copy2"
  by (intro ext) (simp add: copy2_aliased_def copy2_def copy_target_aliased_def copy_target_def)

lemma process_files_aliased_id:
  "process_files_aliased (\<lambda>p. p) kind exts outd fl self w = process_files kind exts outd fl self w"
  by (induction fl arbitrary: self w) (simp_all add: copy2_aliased_id Let_def cong: sum.case_cong)

lemma glob_star_names: "map (\<lambda>p. d @ [name p]) (glob_star t d) = glob_star t d"
  by (rule map_idI) (use glob_star_child in fastforce)

lemma process_category_aliased_id:
  "process_category_aliased (\<lambda>p. p) sub kind exts self w = process_category sub kind exts self w"
  using glob_star_names[of "assets_dir self @ [sub]"]
  by (simp add: process_category_aliased_def process_category_def process_files_aliased_id
        Let_def cong: sum.case_cong)

lemma generate_manifest_aliased_id:
  "generate_manifest_aliased (\<lambda>p. p) self w = generate_manifest self w"
  by (simp add: generate_manifest_aliased_def generate_manifest_def cong: sum.case_cong)

lemma process_all_assets_aliased_id:
  "process_all_assets_aliased (\<lambda>p. p) self w = process_all_assets self w"
  by (simp add: process_all_assets_aliased_def process_all_assets_def process_category_aliased_id
        generate_manifest_aliased_id process_textures_def process_models_def process_audio_def
        process_shaders_def Let_def cong: sum.case_cong)

lemma main_aliased_id: "main_aliased (\<lambda>p. p) w = main w"
  by (simp add: main_aliased_def main_def process_all_assets_aliased_id cong: sum.case_cong)









end
